theory Spec2Isabelle
  imports Complex_Main "HOL-Library.Word" "HOL-Library.Sublist"
begin

section \<open>JavaScript values\<close>

text \<open>
  A JavaScript string is a sequence of UTF-16 code units; a regular expression without the
  \<^verbatim>\<open>u\<close> flag matches one code unit at a time. ASCII literals of the source are written
  with \<open>utf16\<close>.
\<close>

type_synonym code_unit = "16 word"
type_synonym js_string = "code_unit list"

definition utf16 :: "string \<Rightarrow> js_string" where
  "utf16 s = map (\<lambda>c. of_nat (of_char c)) s"

text \<open>A number is an IEEE double: a finite value or one of the three non-finite ones.\<close>

datatype js_number = Finite real | PosInfinity | NegInfinity | NaN

text \<open>An \<^verbatim>\<open>Error\<close> instance (or an instance of a subclass) with the three standard properties.\<close>

record js_error =
  err_name :: js_string
  err_message :: js_string
  err_stack :: "js_string option"

datatype js_value =
    JUndefined
  | JNull
  | JBoolean bool
  | JNumber js_number
  | JString js_string
  | JObject "(js_string \<times> js_value) list"
  | JError js_error

section \<open>URL policy (main.js)\<close>

text \<open>
  \<^verbatim>\<open>new URL(x)\<close> is the platform's WHATWG parser, not code of this repository. It is a
  parameter of the model: it either throws (\<open>None\<close>) or gives an object of which the code
  reads \<^verbatim>\<open>protocol\<close> and \<^verbatim>\<open>origin\<close>.
\<close>

record url =
  protocol :: js_string
  origin :: js_string

type_synonym url_constructor = "js_value \<Rightarrow> url option"

definition ALLOWED_PROTOCOLS :: "js_string list" where
  "ALLOWED_PROTOCOLS = [utf16 ''https:'', utf16 ''mailto:'', utf16 ''tel:'']"

definition isSafeUrl :: "url_constructor \<Rightarrow> js_value \<Rightarrow> bool" where
  "isSafeUrl new_URL urlString =
     (case new_URL urlString of
        Some u \<Rightarrow> protocol u \<in> set ALLOWED_PROTOCOLS
      | None \<Rightarrow> False)"

datatype window_open_action = Deny | Allow

datatype shell_effect = OpenExternal js_value | WarnBlocked js_value

text \<open>The handler given to \<^verbatim>\<open>setWindowOpenHandler\<close>: what it does, and what it answers.\<close>

definition windowOpenHandler :: "url_constructor \<Rightarrow> js_value \<Rightarrow> shell_effect list \<times> window_open_action" where
  "windowOpenHandler new_URL u =
     (if isSafeUrl new_URL u then ([OpenExternal u], Deny) else ([WarnBlocked u], Deny))"

text \<open>
  The \<^verbatim>\<open>will-navigate\<close> listener. The constructor is called outside any \<^verbatim>\<open>try\<close>: when it
  throws, the listener ends there (\<open>Inl\<close>) and \<^verbatim>\<open>event.preventDefault()\<close> has not been
  called. Otherwise the result says whether \<^verbatim>\<open>preventDefault\<close> was called.
\<close>

datatype js_exception = TypeError | SyntaxError

definition home_origin :: js_string where
  "home_origin = utf16 ''https://bsky.app''"

definition will_navigate :: "url_constructor \<Rightarrow> js_value \<Rightarrow> js_exception + bool" where
  "will_navigate new_URL navigationUrl =
     (case new_URL navigationUrl of
        None \<Rightarrow> Inl TypeError
      | Some parsedUrl \<Rightarrow> Inr (origin parsedUrl \<noteq> home_origin))"

text \<open>
  What the parser gives for literal URLs of the repository's tests (\<^verbatim>\<open>utils.test.js\<close>,
  \<^verbatim>\<open>security.test.js\<close>): the protocol and the origin, or \<open>None\<close> where it throws, as it
  does on \<^verbatim>\<open>null\<close> and \<^verbatim>\<open>undefined\<close>. The table instantiates the parameter where a
  concrete input is evaluated; a string outside the table is not used anywhere.
\<close>

definition tested_urls :: "(string \<times> (string \<times> string) option) list" where
  "tested_urls =
    [(''https://bsky.app'', Some (''https:'', ''https://bsky.app'')),
     (''https://bsky.app/profile'', Some (''https:'', ''https://bsky.app'')),
     (''https://example.com/path'', Some (''https:'', ''https://example.com'')),
     (''https://evil.com'', Some (''https:'', ''https://evil.com'')),
     (''https://phishing.bsky.evil.com'', Some (''https:'', ''https://phishing.bsky.evil.com'')),
     (''http://example.com'', Some (''http:'', ''http://example.com'')),
     (''mailto:test@example.com'', Some (''mailto:'', ''null'')),
     (''tel:+1234567890'', Some (''tel:'', ''null'')),
     (''file:///path/to/file'', Some (''file:'', ''null'')),
     (''ftp://example.com'', Some (''ftp:'', ''ftp://example.com'')),
     (''javascript:alert(1)'', Some (''javascript:'', ''null'')),
     (''not-a-url'', None),
     ('''', None),
     (''https://'', None)]"

fun tested_URL :: url_constructor where
  "tested_URL (JString s) =
     (case map_of (map (\<lambda>(k, v). (utf16 k, v)) tested_urls) s of
        Some (Some (p, og)) \<Rightarrow> Some \<lparr>protocol = utf16 p, origin = utf16 og\<rparr>
      | _ \<Rightarrow> None)"
| "tested_URL _ = None"

section \<open>Error sanitizers\<close>

subsection \<open>main.js: a fixed message\<close>

datatype sanitized =
    FaultRecord (fault_name: js_string) (fault_message: js_string) (fault_stack: "js_string option")
  | Marker js_string

definition sanitizeError :: "js_value \<Rightarrow> sanitized" where
  "sanitizeError error =
     (case error of
        JError e \<Rightarrow> FaultRecord (err_name e) (utf16 ''Application error occurred'') None
      | _ \<Rightarrow> Marker (utf16 ''Unknown error''))"

subsection \<open>utils.test.js: the message scrubbed by a regular expression\<close>

text \<open>
  \<^verbatim>\<open>error.message.replace(/[^\w\s.,!?@#$%^&*()\-+=]/g, '*')\<close>: every code unit that the
  negated class matches becomes \<^verbatim>\<open>*\<close>. The class is negated, so the code units that stay
  are those of \<^verbatim>\<open>\w\<close>, of \<^verbatim>\<open>\s\<close> and the listed punctuation.
\<close>

definition word_char :: "code_unit \<Rightarrow> bool" where
  "word_char c \<longleftrightarrow>
     (0x30 \<le> c \<and> c \<le> 0x39) \<or> (0x41 \<le> c \<and> c \<le> 0x5A) \<or> (0x61 \<le> c \<and> c \<le> 0x7A) \<or> c = 0x5F"

text \<open>\<^verbatim>\<open>\s\<close> of ECMAScript: tab, LF, VT, FF, CR, space, NBSP, the Unicode space separators,
  the line and paragraph separators and the byte-order mark.\<close>

definition white_space :: "code_unit \<Rightarrow> bool" where
  "white_space c \<longleftrightarrow>
     (0x09 \<le> c \<and> c \<le> 0x0D) \<or> c = 0x20 \<or> c = 0xA0 \<or> c = 0x1680 \<or>
     (0x2000 \<le> c \<and> c \<le> 0x200A) \<or> c = 0x2028 \<or> c = 0x2029 \<or> c = 0x202F \<or>
     c = 0x205F \<or> c = 0x3000 \<or> c = 0xFEFF"

definition listed_punctuation :: "code_unit list" where
  "listed_punctuation = utf16 ''.,!?@#$%^&*()-+=''"

definition kept :: "code_unit \<Rightarrow> bool" where
  "kept c \<longleftrightarrow> word_char c \<or> white_space c \<or> c \<in> set listed_punctuation"

definition mask_char :: code_unit where
  "mask_char = 0x2A"

definition scrub :: "js_string \<Rightarrow> js_string" where
  "scrub message = map (\<lambda>c. if kept c then c else mask_char) message"

datatype scrubbed =
    ScrubbedRecord (scrubbed_name: js_string) (scrubbed_message: js_string)
  | ScrubbedMarker js_string

definition sanitizeError_scrubbing :: "js_value \<Rightarrow> scrubbed" where
  "sanitizeError_scrubbing error =
     (case error of
        JError e \<Rightarrow> ScrubbedRecord (err_name e) (scrub (err_message e))
      | _ \<Rightarrow> ScrubbedMarker (utf16 ''Unknown error''))"

text \<open>The allow-set as the specification writes it,
  \<^verbatim>\<open>[A-Za-z0-9 .,!?@#$%^&*()\-+=_]\<close>: of the white space only the space.\<close>

definition spec_allow_set :: "code_unit \<Rightarrow> bool" where
  "spec_allow_set c \<longleftrightarrow> word_char c \<or> c = 0x20 \<or> c \<in> set listed_punctuation"

section \<open>Page enhancement controller (the script injected on \<^verbatim>\<open>did-finish-load\<close>)\<close>

subsection \<open>The registry \<^verbatim>\<open>ScrollRefreshManager\<close>\<close>

text \<open>
  Timer ids, function objects and DOM nodes are identified by numbers drawn from one
  counter of the page. A property that is \<^verbatim>\<open>null\<close> is \<open>None\<close>; every test of the source on
  such a property is a truthiness test of an object or of a positive timer id.
\<close>

type_synonym timer_id = nat
type_synonym fn_ref = nat
type_synonym node_ref = nat

record mgr_data =
  isAtTop :: bool
  wheelDeltaAccumulator :: real
  threshold :: real
  data_indicator :: "node_ref option"
  data_indicatorTimeout :: "timer_id option"

record mgr_handlers =
  ref_handleScroll :: "fn_ref option"
  ref_handleWheel :: "fn_ref option"
  ref_handleMouseMove :: "fn_ref option"
  ref_handleScrollShow :: "fn_ref option"
  ref_pinMouseEnter :: "fn_ref option"
  ref_pinMouseLeave :: "fn_ref option"
  ref_pinClick :: "fn_ref option"

record mgr_elements =
  el_indicator :: "node_ref option"
  el_floatingBtn :: "node_ref option"
  el_spinnerStyle :: "node_ref option"
  el_btnStyle :: "node_ref option"
  el_pinButton :: "node_ref option"

record mgr_timeouts =
  t_floatAnimation :: "timer_id option"
  t_indicatorTimeout :: "timer_id option"
  t_idleCheck :: "timer_id option"
  t_mouseHide :: "timer_id option"
  t_scrollShow :: "timer_id option"

record mgr_intervals =
  idle :: "timer_id option"

record manager =
  data :: mgr_data
  handlers :: mgr_handlers
  elements :: mgr_elements
  timeouts :: mgr_timeouts
  intervals :: mgr_intervals

text \<open>
  The five sub-objects of the manager are set to \<^verbatim>\<open>null\<close> at one place only, together, by
  the last loop of the cleanup function. So the manager of a page is in one of three
  shapes: no install script has run (\<open>Absent\<close>), the object with its five sub-objects
  (\<open>Live\<close>), or the object with all five keys \<^verbatim>\<open>null\<close> (\<open>Cleared\<close>).
\<close>

datatype registry_state = Absent | Live manager | Cleared

text \<open>\<^verbatim>\<open>button._handlers\<close> of the floating refresh button.\<close>

record button_handlers =
  bh_mouseEnter :: fn_ref
  bh_mouseLeave :: fn_ref
  bh_click :: fn_ref
  bh_mouseDown :: fn_ref
  bh_mouseUp :: fn_ref

datatype target = Window | Document | Node node_ref

datatype timer_callback = ReloadPage | FloatAnimation | IdleDecay

datatype release =
    ClearedInterval timer_id
  | ClearedTimeout timer_id
  | RemovedListener target string fn_ref
  | RemovedNode node_ref

record page =
  registry :: registry_state
  window_scrollRefreshCleanup :: bool
  window_scrollRefreshInterval :: "timer_id option"
  scrollY :: real
  document :: "(node_ref \<times> string) list"
  handlers_prop :: "node_ref \<Rightarrow> button_handlers option"
  shown :: "node_ref \<Rightarrow> bool"
  listeners :: "(target \<times> string \<times> fn_ref) list"
  live_intervals :: "(timer_id \<times> timer_callback \<times> nat) list"
  pending_timeouts :: "(timer_id \<times> timer_callback \<times> nat) list"
  fresh :: nat
  released :: "release list"

text \<open>A document in which no install script has run; ids start at 1, as timer ids do.\<close>

definition fresh_page :: page where
  "fresh_page =
     \<lparr>registry = Absent, window_scrollRefreshCleanup = False,
      window_scrollRefreshInterval = None, scrollY = 0, document = [],
      handlers_prop = (\<lambda>_. None), shown = (\<lambda>_. False), listeners = [],
      live_intervals = [], pending_timeouts = [], fresh = 1, released = []\<rparr>"

subsection \<open>Primitives of the page\<close>

definition new_ref :: "page \<Rightarrow> nat \<times> page" where
  "new_ref pg = (fresh pg, pg\<lparr>fresh := Suc (fresh pg)\<rparr>)"

definition getElementById :: "page \<Rightarrow> string \<Rightarrow> bool" where
  "getElementById pg i \<longleftrightarrow> i \<in> snd ` set (document pg)"

definition appendChild :: "node_ref \<Rightarrow> string \<Rightarrow> page \<Rightarrow> page" where
  "appendChild n i pg = pg\<lparr>document := document pg @ [(n, i)]\<rparr>"

definition addEventListener :: "target \<Rightarrow> string \<Rightarrow> fn_ref \<Rightarrow> page \<Rightarrow> page" where
  "addEventListener tg ty f pg = pg\<lparr>listeners := listeners pg @ [(tg, ty, f)]\<rparr>"

definition setTimeout :: "timer_callback \<Rightarrow> nat \<Rightarrow> page \<Rightarrow> timer_id \<times> page" where
  "setTimeout cb ms pg =
     (fresh pg, pg\<lparr>pending_timeouts := pending_timeouts pg @ [(fresh pg, cb, ms)],
                   fresh := Suc (fresh pg)\<rparr>)"

definition setInterval :: "timer_callback \<Rightarrow> nat \<Rightarrow> page \<Rightarrow> timer_id \<times> page" where
  "setInterval cb ms pg =
     (fresh pg, pg\<lparr>live_intervals := live_intervals pg @ [(fresh pg, cb, ms)],
                   fresh := Suc (fresh pg)\<rparr>)"

definition clearInterval :: "timer_id \<Rightarrow> page \<Rightarrow> page" where
  "clearInterval h pg =
     pg\<lparr>live_intervals := filter (\<lambda>e. fst e \<noteq> h) (live_intervals pg),
        released := released pg @ [ClearedInterval h]\<rparr>"

definition clearTimeout :: "timer_id \<Rightarrow> page \<Rightarrow> page" where
  "clearTimeout h pg =
     pg\<lparr>pending_timeouts := filter (\<lambda>e. fst e \<noteq> h) (pending_timeouts pg),
        released := released pg @ [ClearedTimeout h]\<rparr>"

definition removeEventListener :: "target \<Rightarrow> string \<Rightarrow> fn_ref \<Rightarrow> page \<Rightarrow> page" where
  "removeEventListener tg ty f pg =
     pg\<lparr>listeners := remove1 (tg, ty, f) (listeners pg),
        released := released pg @ [RemovedListener tg ty f]\<rparr>"

definition remove_node :: "node_ref \<Rightarrow> page \<Rightarrow> page" where
  "remove_node n pg =
     pg\<lparr>document := filter (\<lambda>e. fst e \<noteq> n) (document pg),
        released := released pg @ [RemovedNode n]\<rparr>"

text \<open>\<^verbatim>\<open>if (x) f(x)\<close> on a nullable property.\<close>

definition when_set :: "'a option \<Rightarrow> ('a \<Rightarrow> page \<Rightarrow> page) \<Rightarrow> page \<Rightarrow> page" where
  "when_set x f pg = (case x of None \<Rightarrow> pg | Some v \<Rightarrow> f v pg)"

subsection \<open>The refresh indicator\<close>

datatype dom_event = NoEvent | WheelEvent js_value

definition createRefreshIndicator :: "manager \<times> page \<Rightarrow> manager \<times> page" where
  "createRefreshIndicator mp =
     (let (m, pg) = mp in
      if el_indicator (elements m) \<noteq> None then (m, pg)
      else
        let (indicator, pg1) = new_ref pg;
            pg2 = appendChild indicator ''scroll-refresh-indicator'' (pg1\<lparr>shown := (shown pg1)(indicator := False)\<rparr>);
            m1 = m\<lparr>elements := (elements m)\<lparr>el_indicator := Some indicator\<rparr>,
                   data := (data m)\<lparr>data_indicator := Some indicator\<rparr>\<rparr>
        in if getElementById pg2 ''refresh-spinner-style'' then (m1, pg2)
           else
             let (style, pg3) = new_ref pg2
             in (m1\<lparr>elements := (elements m1)\<lparr>el_spinnerStyle := Some style\<rparr>\<rparr>,
                 appendChild style ''refresh-spinner-style'' pg3))"

definition showRefreshIndicator :: "manager \<times> page \<Rightarrow> manager \<times> page" where
  "showRefreshIndicator mp =
     (let (m, pg) = createRefreshIndicator mp in
      case el_indicator (elements m) of
        Some indicator \<Rightarrow> (m, pg\<lparr>shown := (shown pg)(indicator := True)\<rparr>)
      | None \<Rightarrow> (m, pg))"

definition hideRefreshIndicator :: "manager \<times> page \<Rightarrow> manager \<times> page" where
  "hideRefreshIndicator mp =
     (let (m, pg) = mp in
      case el_indicator (elements m) of
        Some indicator \<Rightarrow> (m, pg\<lparr>shown := (shown pg)(indicator := False)\<rparr>)
      | None \<Rightarrow> (m, pg))"

subsection \<open>The scroll and wheel handlers\<close>

text \<open>
  A handler is a closure over the manager of its install script. Reading a property of
  \<^verbatim>\<open>ScrollRefreshManager.data\<close> after the cleanup has set that key to \<^verbatim>\<open>null\<close> throws.
\<close>

definition handleScroll :: "page \<Rightarrow> js_exception + page" where
  "handleScroll pg =
     (case registry pg of
        Live m \<Rightarrow>
          let m1 = m\<lparr>data := (data m)\<lparr>isAtTop := (scrollY pg \<le> 10)\<rparr>\<rparr> in
          if \<not> isAtTop (data m1) then
            let (m2, pg2) = hideRefreshIndicator (m1\<lparr>data := (data m1)\<lparr>wheelDeltaAccumulator := 0\<rparr>\<rparr>, pg)
            in Inr (pg2\<lparr>registry := Live m2\<rparr>)
          else Inr (pg\<lparr>registry := Live m1\<rparr>)
      | _ \<Rightarrow> Inl TypeError)"

text \<open>The part of the wheel handler after the validation and the limit on the delta,
  from \<^verbatim>\<open>if (!data.isAtTop) return;\<close> on. Sums of finite deltas are exact here; for the
  integer-valued deltas of a wheel they are exact on doubles too.\<close>

definition wheel_valid :: "real \<Rightarrow> manager \<times> page \<Rightarrow> manager \<times> page" where
  "wheel_valid deltaY mp =
     (let (m, pg) = mp in
      if \<not> isAtTop (data m) then (m, pg)
      else if deltaY < 0 then
        let m1 = m\<lparr>data := (data m)\<lparr>wheelDeltaAccumulator := wheelDeltaAccumulator (data m) + \<bar>deltaY\<bar>\<rparr>\<rparr> in
        if wheelDeltaAccumulator (data m1) \<ge> \<bar>threshold (data m1)\<bar> then
          let (m2, pg2) = showRefreshIndicator (m1, pg);
              pg3 = when_set (t_indicatorTimeout (timeouts m2)) clearTimeout pg2;
              (h, pg4) = setTimeout ReloadPage 500 pg3
          in (m2\<lparr>timeouts := (timeouts m2)\<lparr>t_indicatorTimeout := Some h\<rparr>\<rparr>, pg4)
        else (m1, pg)
      else
        let (m2, pg2) = hideRefreshIndicator (m\<lparr>data := (data m)\<lparr>wheelDeltaAccumulator := 0\<rparr>\<rparr>, pg)
        in case t_indicatorTimeout (timeouts m2) of
             Some h \<Rightarrow> (m2\<lparr>timeouts := (timeouts m2)\<lparr>t_indicatorTimeout := None\<rparr>\<rparr>, clearTimeout h pg2)
           | None \<Rightarrow> (m2, pg2))"

definition handleWheel :: "dom_event \<Rightarrow> page \<Rightarrow> js_exception + page" where
  "handleWheel event pg =
     (case event of
        WheelEvent (JNumber (Finite deltaY)) \<Rightarrow>
          if \<bar>deltaY\<bar> > 1000 then Inr pg
          else (case registry pg of
                  Live m \<Rightarrow> (let (m', pg') = wheel_valid deltaY (m, pg) in Inr (pg'\<lparr>registry := Live m'\<rparr>))
                | _ \<Rightarrow> Inl TypeError)
      | _ \<Rightarrow> Inr pg)"

subsection \<open>The floating buttons\<close>

definition createFloatingPinButton :: "manager \<times> page \<Rightarrow> manager \<times> page" where
  "createFloatingPinButton mp =
     (let (m, pg) = mp in
      if getElementById pg ''floating-pin-btn'' then (m, pg)
      else
        let (button, pg1) = new_ref pg;
            (mouseEnterHandler, pg2) = new_ref pg1;
            (mouseLeaveHandler, pg3) = new_ref pg2;
            (clickHandler, pg4) = new_ref pg3;
            pg5 = addEventListener (Node button) ''mouseenter'' mouseEnterHandler pg4;
            pg6 = addEventListener (Node button) ''mouseleave'' mouseLeaveHandler pg5;
            pg7 = addEventListener (Node button) ''click'' clickHandler pg6;
            m1 = m\<lparr>handlers := (handlers m)\<lparr>ref_pinMouseEnter := Some mouseEnterHandler,
                                             ref_pinMouseLeave := Some mouseLeaveHandler,
                                             ref_pinClick := Some clickHandler\<rparr>\<rparr>;
            pg8 = appendChild button ''floating-pin-btn'' pg7
        in (m1\<lparr>elements := (elements m1)\<lparr>el_pinButton := Some button\<rparr>\<rparr>, pg8))"

definition createFloatingRefreshButton :: "manager \<times> page \<Rightarrow> manager \<times> page" where
  "createFloatingRefreshButton mp =
     (let (m, pg) = mp in
      if getElementById pg ''floating-refresh-btn'' then (m, pg)
      else
        let (button, pg1) = new_ref pg;
            (mouseEnterHandler, pg2) = new_ref pg1;
            (mouseLeaveHandler, pg3) = new_ref pg2;
            (clickHandler, pg4) = new_ref pg3;
            (mouseDownHandler, pg5) = new_ref pg4;
            (mouseUpHandler, pg6) = new_ref pg5;
            pg7 = pg6\<lparr>handlers_prop := (handlers_prop pg6)(button \<mapsto>
                      \<lparr>bh_mouseEnter = mouseEnterHandler, bh_mouseLeave = mouseLeaveHandler,
                       bh_click = clickHandler, bh_mouseDown = mouseDownHandler,
                       bh_mouseUp = mouseUpHandler\<rparr>)\<rparr>;
            pg8 = addEventListener (Node button) ''mouseenter'' mouseEnterHandler pg7;
            pg9 = addEventListener (Node button) ''mouseleave'' mouseLeaveHandler pg8;
            pg10 = addEventListener (Node button) ''click'' clickHandler pg9;
            pg11 = addEventListener (Node button) ''mousedown'' mouseDownHandler pg10;
            pg12 = addEventListener (Node button) ''mouseup'' mouseUpHandler pg11;
            pg13 = appendChild button ''floating-refresh-btn'' pg12;
            m1 = m\<lparr>elements := (elements m)\<lparr>el_floatingBtn := Some button\<rparr>\<rparr>;
            (m2, pg14) =
              (if getElementById pg13 ''floating-btn-style'' then (m1, pg13)
               else let (style, q) = new_ref pg13
                    in (m1\<lparr>elements := (elements m1)\<lparr>el_btnStyle := Some style\<rparr>\<rparr>,
                        appendChild style ''floating-btn-style'' q));
            (floatAnimation, pg15) = setTimeout FloatAnimation 1000 pg14;
            m3 = m2\<lparr>timeouts := (timeouts m2)\<lparr>t_floatAnimation := Some floatAnimation\<rparr>\<rparr>;
            (handleMouseMove, pg16) = new_ref pg15;
            (handleScrollShow, pg17) = new_ref pg16;
            m4 = m3\<lparr>handlers := (handlers m3)\<lparr>ref_handleMouseMove := Some handleMouseMove,
                                               ref_handleScrollShow := Some handleScrollShow\<rparr>\<rparr>;
            pg18 = addEventListener Document ''mousemove'' handleMouseMove pg17;
            pg19 = addEventListener Window ''scroll'' handleScrollShow pg18
        in (m4, pg19))"

subsection \<open>\<^verbatim>\<open>window.scrollRefreshCleanup\<close>\<close>

definition remove_pin_button :: "manager \<Rightarrow> page \<Rightarrow> page" where
  "remove_pin_button m pg =
     (case el_pinButton (elements m) of
        None \<Rightarrow> pg
      | Some pinButton \<Rightarrow>
          remove_node pinButton
            (when_set (ref_pinClick (handlers m)) (removeEventListener (Node pinButton) ''click'')
              (when_set (ref_pinMouseLeave (handlers m)) (removeEventListener (Node pinButton) ''mouseleave'')
                (when_set (ref_pinMouseEnter (handlers m)) (removeEventListener (Node pinButton) ''mouseenter'') pg))))"

definition remove_floating_button :: "manager \<Rightarrow> page \<Rightarrow> page" where
  "remove_floating_button m pg =
     (case el_floatingBtn (elements m) of
        None \<Rightarrow> pg
      | Some button \<Rightarrow>
          remove_node button
            (case handlers_prop pg button of
               None \<Rightarrow> pg
             | Some hs \<Rightarrow>
                 (removeEventListener (Node button) ''mouseup'' (bh_mouseUp hs)
                   (removeEventListener (Node button) ''mousedown'' (bh_mouseDown hs)
                     (removeEventListener (Node button) ''click'' (bh_click hs)
                       (removeEventListener (Node button) ''mouseleave'' (bh_mouseLeave hs)
                         (removeEventListener (Node button) ''mouseenter'' (bh_mouseEnter hs) pg)))))
                 \<lparr>handlers_prop := (handlers_prop pg)(button := None)\<rparr>))"

text \<open>The keys of \<^verbatim>\<open>manager.timeouts\<close> in the order \<^verbatim>\<open>Object.keys\<close> gives them.\<close>

definition timeout_keys :: "mgr_timeouts \<Rightarrow> timer_id option list" where
  "timeout_keys t =
     [t_floatAnimation t, t_indicatorTimeout t, t_idleCheck t, t_mouseHide t, t_scrollShow t]"

definition scrollRefreshCleanup :: "page \<Rightarrow> js_exception + page" where
  "scrollRefreshCleanup pg =
     (case registry pg of
        Live manager \<Rightarrow>
          let pg1 = when_set (idle (intervals manager)) clearInterval pg;
              pg2 = foldl (\<lambda>q k. when_set k clearTimeout q) pg1 (timeout_keys (timeouts manager));
              pg3 = when_set (ref_handleScroll (handlers manager)) (removeEventListener Window ''scroll'') pg2;
              pg4 = when_set (ref_handleWheel (handlers manager)) (removeEventListener Window ''wheel'') pg3;
              pg5 = when_set (ref_handleMouseMove (handlers manager)) (removeEventListener Document ''mousemove'') pg4;
              pg6 = when_set (ref_handleScrollShow (handlers manager)) (removeEventListener Window ''scroll'') pg5;
              pg7 = remove_pin_button manager pg6;
              pg8 = remove_floating_button manager pg7;
              pg9 = when_set (el_indicator (elements manager)) remove_node pg8;
              pg10 = when_set (el_spinnerStyle (elements manager)) remove_node pg9;
              pg11 = when_set (el_btnStyle (elements manager)) remove_node pg10
          in Inr (pg11\<lparr>window_scrollRefreshCleanup := False,
                       window_scrollRefreshInterval := None,
                       registry := Cleared\<rparr>)
      | _ \<Rightarrow> Inl TypeError)"

text \<open>
  The script every caller of the host sends:
  \<^verbatim>\<open>if(window.scrollRefreshCleanup) window.scrollRefreshCleanup()\<close>.
\<close>

definition cleanup_script :: "page \<Rightarrow> js_exception + page" where
  "cleanup_script pg = (if window_scrollRefreshCleanup pg then scrollRefreshCleanup pg else Inr pg)"

subsection \<open>The install script\<close>

definition new_manager :: manager where
  "new_manager =
     \<lparr>data = \<lparr>isAtTop = True, wheelDeltaAccumulator = 0, threshold = -150,
               data_indicator = None, data_indicatorTimeout = None\<rparr>,
      handlers = \<lparr>ref_handleScroll = None, ref_handleWheel = None, ref_handleMouseMove = None,
                   ref_handleScrollShow = None, ref_pinMouseEnter = None,
                   ref_pinMouseLeave = None, ref_pinClick = None\<rparr>,
      elements = \<lparr>el_indicator = None, el_floatingBtn = None, el_spinnerStyle = None,
                   el_btnStyle = None, el_pinButton = None\<rparr>,
      timeouts = \<lparr>t_floatAnimation = None, t_indicatorTimeout = None, t_idleCheck = None,
                   t_mouseHide = None, t_scrollShow = None\<rparr>,
      intervals = \<lparr>idle = None\<rparr>\<rparr>"

definition install_body :: "page \<Rightarrow> page" where
  "install_body pg =
     (let (handleScroll_ref, pg1) = new_ref pg;
          (handleWheel_ref, pg2) = new_ref pg1;
          m1 = new_manager\<lparr>handlers := (handlers new_manager)
                 \<lparr>ref_handleScroll := Some handleScroll_ref, ref_handleWheel := Some handleWheel_ref\<rparr>\<rparr>;
          (m2, pg3) = createFloatingPinButton (m1, pg2);
          (m3, pg4) = createFloatingRefreshButton (m2, pg3);
          pg5 = addEventListener Window ''scroll'' handleScroll_ref pg4;
          pg6 = addEventListener Window ''wheel'' handleWheel_ref pg5;
          (h, pg7) = setInterval IdleDecay 100 pg6;
          m4 = m3\<lparr>intervals := (intervals m3)\<lparr>idle := Some h\<rparr>\<rparr>
      in pg7\<lparr>window_scrollRefreshInterval := Some h,
             window_scrollRefreshCleanup := True,
             registry := Live m4\<rparr>)"

text \<open>
  The whole script as \<^verbatim>\<open>executeJavaScript\<close> runs it in a document. Its top level declares
  \<^verbatim>\<open>const ScrollRefreshManager\<close>: in a document where the script has run before, the name is
  already declared, and the script fails with a \<^verbatim>\<open>SyntaxError\<close> before its first statement, the
  guarded cleanup included. In a document where it has not run, the guarded cleanup comes
  first, then the body.
\<close>

definition install_script :: "page \<Rightarrow> js_exception + page" where
  "install_script pg =
     (case registry pg of
        Absent \<Rightarrow>
          (case cleanup_script pg of
             Inl e \<Rightarrow> Inl e
           | Inr pg' \<Rightarrow> Inr (install_body pg'))
      | _ \<Rightarrow> Inl SyntaxError)"

section \<open>Window lifecycle and host process (main.js)\<close>

subsection \<open>State\<close>

text \<open>
  The ad hoc properties the code keeps on \<^verbatim>\<open>mainWindow\<close>; an absent or deleted property
  is \<open>None\<close>. In the main process a timer handle is a \<^verbatim>\<open>Timeout\<close> object, always truthy.
\<close>

record browser_window =
  isLoading :: "bool option"
  loadingStartTime :: "int option"
  cacheInterval :: "timer_id option"
  memoryMonitorInterval :: "timer_id option"
  alwaysOnTop :: bool
  isDestroyed :: bool
  isVisible :: bool

datatype task = CacheClear | MemoryMonitor

datatype script = InstallScript | CleanupScript | MemoryProbeScript | NotificationScript

text \<open>How the page answers one \<^verbatim>\<open>executeJavaScript\<close> request: the call throws a value, or
  its promise is fulfilled, is rejected with a value, or never settles.\<close>

datatype page_reply = ThrowsSynchronously js_value | Resolves | Rejects js_value | NeverSettles

datatype gone_reason = CleanExit | AbnormalExit | Killed | Crashed | Oom | LaunchFailed | IntegrityFailure

text \<open>
  What a console call is given after its first string: the result of \<^verbatim>\<open>sanitizeError\<close>, a
  rejected promise (the console prints it with the reason it was rejected with), a value
  as it was thrown or rejected, a string, or the \<^verbatim>\<open>details\<close> of \<^verbatim>\<open>render-process-gone\<close>.
\<close>

datatype log_arg =
    Fault sanitized
  | RejectedPromise js_value
  | Raw js_value
  | Text string
  | Details gone_reason

text \<open>The objects that emit events to listeners of the program.\<close>

datatype emitter = App | Process

datatype effect =
    ConsoleWarn string "log_arg list"
  | ConsoleLog string
  | ConsoleError string "log_arg list"
  | ExecuteJavaScript script
  | SetIntervalCalled timer_id task
  | ClearIntervalCalled timer_id
  | SetTimeoutCalled timer_id int
  | PreventDefault
  | Hide
  | SetAlwaysOnTop bool
  | Send string bool
  | AppOff string
  | TrayDestroy
  | RaceTimedOut int
  | ProcessExit int
  | Uncaught js_exception

record host =
  mainWindow :: "browser_window option"
  willQuit :: bool
  tray :: bool
  appEventListeners :: "string list"
  subscribed :: "(emitter \<times> string) list"
  win32 :: bool
  host_intervals :: "(timer_id \<times> task) list"
  host_timeouts :: "(timer_id \<times> int) list"
  next_timer :: timer_id
  trace :: "effect list"
  exit_status :: "int option"

definition emit :: "effect \<Rightarrow> host \<Rightarrow> host" where
  "emit e s = s\<lparr>trace := trace s @ [e]\<rparr>"

definition new_window :: browser_window where
  "new_window =
     \<lparr>isLoading = None, loadingStartTime = None, cacheInterval = None,
      memoryMonitorInterval = None, alwaysOnTop = False, isDestroyed = False,
      isVisible = False\<rparr>"

text \<open>
  \<^verbatim>\<open>addAppListener\<close>: \<^verbatim>\<open>app.on(event, listener)\<close>, and the pair is pushed on
  \<^verbatim>\<open>appEventListeners\<close>. The source has no other subscription to a process-wide event; in
  particular it never calls \<^verbatim>\<open>process.on\<close>.
\<close>

definition addAppListener :: "string \<Rightarrow> host \<Rightarrow> host" where
  "addAppListener ev s =
     s\<lparr>subscribed := subscribed s @ [(App, ev)],
       appEventListeners := appEventListeners s @ [ev]\<rparr>"

text \<open>The process after \<^verbatim>\<open>app.whenReady()\<close>: the five calls of \<^verbatim>\<open>addAppListener\<close> of the
  module have been made, and there are a window and a tray.\<close>

definition started :: "bool \<Rightarrow> host" where
  "started on_win32 =
     \<lparr>mainWindow = Some new_window, willQuit = False, tray = True,
      appEventListeners = [''window-all-closed'', ''activate'', ''before-quit'',
                           ''uncaughtException'', ''unhandledRejection''],
      subscribed = [(App, ''window-all-closed''), (App, ''activate''), (App, ''before-quit''),
                    (App, ''uncaughtException''), (App, ''unhandledRejection'')],
      win32 = on_win32, host_intervals = [], host_timeouts = [], next_timer = 1,
      trace = [], exit_status = None\<rparr>"

definition host_setInterval :: "task \<Rightarrow> host \<Rightarrow> timer_id \<times> host" where
  "host_setInterval t s =
     (next_timer s,
      emit (SetIntervalCalled (next_timer s) t)
        (s\<lparr>host_intervals := host_intervals s @ [(next_timer s, t)],
           next_timer := Suc (next_timer s)\<rparr>))"

definition host_clearInterval :: "timer_id \<Rightarrow> host \<Rightarrow> host" where
  "host_clearInterval h s =
     emit (ClearIntervalCalled h) (s\<lparr>host_intervals := filter (\<lambda>e. fst e \<noteq> h) (host_intervals s)\<rparr>)"

definition host_setTimeout :: "int \<Rightarrow> host \<Rightarrow> timer_id \<times> host" where
  "host_setTimeout ms s =
     (next_timer s,
      emit (SetTimeoutCalled (next_timer s) ms)
        (s\<lparr>host_timeouts := host_timeouts s @ [(next_timer s, ms)],
           next_timer := Suc (next_timer s)\<rparr>))"

text \<open>\<^verbatim>\<open>if (mainWindow && mainWindow._cacheInterval) { clearInterval(...); ... = null; }\<close> and
  the same for the memory monitor, as the handlers below do.\<close>

definition clear_cache_interval :: "host \<Rightarrow> host" where
  "clear_cache_interval s =
     (case mainWindow s of
        None \<Rightarrow> s
      | Some w \<Rightarrow>
          (case cacheInterval w of
             None \<Rightarrow> s
           | Some h \<Rightarrow> (host_clearInterval h s)\<lparr>mainWindow := Some (w\<lparr>cacheInterval := None\<rparr>)\<rparr>))"

definition clear_memory_interval :: "host \<Rightarrow> host" where
  "clear_memory_interval s =
     (case mainWindow s of
        None \<Rightarrow> s
      | Some w \<Rightarrow>
          (case memoryMonitorInterval w of
             None \<Rightarrow> s
           | Some h \<Rightarrow> (host_clearInterval h s)\<lparr>mainWindow := Some (w\<lparr>memoryMonitorInterval := None\<rparr>)\<rparr>))"

subsection \<open>\<^verbatim>\<open>did-finish-load\<close>\<close>

text \<open>
  \<open>t0\<close> and \<open>t1\<close> are what \<^verbatim>\<open>Date.now()\<close> gives at the start of the handler and in its
  \<^verbatim>\<open>finally\<close> block. A rejection of the install request is logged by the \<^verbatim>\<open>.catch\<close>
  callback later; the trace records the warning with the request.
\<close>

definition reset_delay :: "int \<Rightarrow> int \<Rightarrow> int" where
  "reset_delay t0 t1 = max 100 (min 1000 (t1 - (if t0 \<noteq> 0 then t0 else t1)))"

text \<open>\<^verbatim>\<open>mainWindow._cacheInterval = setInterval(clearCache, 30 * 60 * 1000)\<close>.\<close>

definition arm_cache_interval :: "host \<Rightarrow> host" where
  "arm_cache_interval s =
     (let (c, s1) = host_setInterval CacheClear s
      in s1\<lparr>mainWindow := map_option (\<lambda>w. w\<lparr>cacheInterval := Some c\<rparr>) (mainWindow s1)\<rparr>)"

text \<open>\<^verbatim>\<open>if (!mainWindow._memoryMonitorInterval) { ... = setInterval(..., 60000); }\<close>.\<close>

definition arm_memory_monitor :: "host \<Rightarrow> host" where
  "arm_memory_monitor s =
     (if Option.bind (mainWindow s) memoryMonitorInterval = None then
        (let (m, s1) = host_setInterval MemoryMonitor s
         in s1\<lparr>mainWindow := map_option (\<lambda>w. w\<lparr>memoryMonitorInterval := Some m\<rparr>) (mainWindow s1)\<rparr>)
      else s)"

definition request_install :: "page_reply \<Rightarrow> host \<Rightarrow> host" where
  "request_install reply s =
     (let s1 = emit (ExecuteJavaScript InstallScript) s in
      case reply of
        ThrowsSynchronously error \<Rightarrow> emit (ConsoleWarn ''Error executing JavaScript:'' [Raw error]) s1
      | Rejects error \<Rightarrow>
          emit (ConsoleWarn ''Failed to inject scroll refresh functionality:'' [Raw error]) s1
      | _ \<Rightarrow> s1)"

definition did_finish_load :: "int \<Rightarrow> int \<Rightarrow> page_reply \<Rightarrow> host \<Rightarrow> host" where
  "did_finish_load t0 t1 reply s =
     (case mainWindow s of
        None \<Rightarrow> emit (Uncaught TypeError) s
      | Some w \<Rightarrow>
          if isLoading w = Some True then
            emit (ConsoleWarn ''Page loading in progress, skipping duplicate injection'' []) s
          else
            let s1 = clear_cache_interval
                       (s\<lparr>mainWindow := Some (w\<lparr>isLoading := Some True, loadingStartTime := Some t0\<rparr>)\<rparr>);
                s2 = request_install reply s1;
                s3 = snd (host_setTimeout (reset_delay t0 t1) s2)
            in arm_memory_monitor (arm_cache_interval s3))"

text \<open>The callback of the reset timer: it runs once, when its timer is pending.\<close>

definition reset_timer_fires :: "timer_id \<Rightarrow> host \<Rightarrow> host" where
  "reset_timer_fires h s =
     (if h \<in> fst ` set (host_timeouts s) then
        (s\<lparr>host_timeouts := filter (\<lambda>e. fst e \<noteq> h) (host_timeouts s)\<rparr>)
          \<lparr>mainWindow := map_option (\<lambda>w. w\<lparr>isLoading := Some False, loadingStartTime := None\<rparr>) (mainWindow s)\<rparr>
      else s)"

subsection \<open>Close, destruction and renderer events\<close>

text \<open>A request that is awaited: the handler goes on after the page has answered, and never
  when the page does not answer.\<close>

definition await_cleanup :: "string \<Rightarrow> string \<Rightarrow> page_reply \<Rightarrow> host \<Rightarrow> host option" where
  "await_cleanup msg_rejected msg_thrown reply s =
     (let s1 = emit (ExecuteJavaScript CleanupScript) s in
      case reply of
        Resolves \<Rightarrow> Some s1
      | NeverSettles \<Rightarrow> None
      | Rejects error \<Rightarrow> Some (emit (ConsoleWarn msg_rejected [Raw error]) s1)
      | ThrowsSynchronously error \<Rightarrow> Some (emit (ConsoleWarn msg_thrown [Raw error]) s1))"

definition window_usable :: "host \<Rightarrow> bool" where
  "window_usable s = (case mainWindow s of None \<Rightarrow> False | Some w \<Rightarrow> \<not> isDestroyed w)"

definition on_close :: "page_reply \<Rightarrow> page_reply \<Rightarrow> host \<Rightarrow> host" where
  "on_close reply reply2 s =
     (if willQuit s then s
      else
        let s1 = emit PreventDefault s in
        case (if window_usable s1
              then await_cleanup ''JavaScript cleanup during minimize failed:''
                     ''JavaScript cleanup during minimize failed:'' reply s1
              else Some s1) of
          None \<Rightarrow> emit (ExecuteJavaScript CleanupScript) s1
        | Some s2 \<Rightarrow>
            (case mainWindow s2 of
               None \<Rightarrow> emit (Uncaught TypeError) s2
             | Some w \<Rightarrow>
                 let s3 = emit Hide (s2\<lparr>mainWindow := Some (w\<lparr>isVisible := False\<rparr>)\<rparr>) in
                 if win32 s3 then
                   (let s4 = emit (ExecuteJavaScript NotificationScript) s3 in
                    case reply2 of
                      ThrowsSynchronously error \<Rightarrow>
                        emit (ConsoleWarn ''Failed to show notification:'' [Raw error]) s4
                    | Rejects error \<Rightarrow> emit (ConsoleWarn ''Failed to show notification:'' [Raw error]) s4
                    | _ \<Rightarrow> s4)
                 else s3))"

definition on_closed :: "host \<Rightarrow> host" where
  "on_closed s = (clear_memory_interval (clear_cache_interval s))\<lparr>mainWindow := None\<rparr>"

definition on_destroyed :: "host \<Rightarrow> host" where
  "on_destroyed s =
     (if mainWindow s = None then s
      else (clear_memory_interval (clear_cache_interval s))\<lparr>mainWindow := None\<rparr>)"

definition render_process_gone :: "gone_reason \<Rightarrow> page_reply \<Rightarrow> host \<Rightarrow> host" where
  "render_process_gone reason reply s =
     (let s1 = emit (ConsoleWarn ''Renderer process gone:'' [Details reason]) s in
      case (if reason = Killed \<or> reason = CleanExit then
              (if window_usable s1
               then await_cleanup ''JavaScript cleanup during render-process-gone failed:''
                      ''Failed to execute JavaScript cleanup during render-process-gone:'' reply s1
               else Some s1)
            else
              Some (emit (ConsoleLog ''Renderer process crashed, automatic cleanup will occur on window destruction'') s1)) of
        None \<Rightarrow> emit (ExecuteJavaScript CleanupScript) s1
      | Some s2 \<Rightarrow> clear_memory_interval (clear_cache_interval s2))"

text \<open>
  The listener is \<^verbatim>\<open>async\<close>: after its \<^verbatim>\<open>await\<close> it goes on when the page has answered,
  possibly after other events were handled. \<open>render_process_gone\<close> is the listener with
  nothing in between; this is its rest alone, run at a later point.
\<close>

definition render_process_gone_resumes :: "host \<Rightarrow> host" where
  "render_process_gone_resumes s = clear_memory_interval (clear_cache_interval s)"

definition on_unresponsive :: "host \<Rightarrow> host" where
  "on_unresponsive s =
     clear_memory_interval
       (clear_cache_interval (emit (ConsoleWarn ''Renderer process is unresponsive, attempting cleanup...'' []) s))"

definition on_responsive :: "host \<Rightarrow> host" where
  "on_responsive s =
     (let s1 = emit (ConsoleLog ''Renderer process is responsive again'') s in
      case mainWindow s1 of
        None \<Rightarrow> emit (Uncaught TypeError) s1
      | Some w \<Rightarrow>
          if cacheInterval w = None then arm_cache_interval s1 else s1)"

subsection \<open>The \<^verbatim>\<open>toggle-always-on-top\<close> request\<close>

definition toggle_always_on_top :: "host \<Rightarrow> host" where
  "toggle_always_on_top s =
     (case mainWindow s of
        None \<Rightarrow> s
      | Some w \<Rightarrow>
          if isDestroyed w then s
          else
            let currentState = alwaysOnTop w;
                s1 = emit (SetAlwaysOnTop (\<not> currentState))
                       (s\<lparr>mainWindow := Some (w\<lparr>alwaysOnTop := \<not> currentState\<rparr>)\<rparr>)
            in emit (Send ''always-on-top-changed'' (\<not> currentState)) s1)"

subsection \<open>Events of one window, in sequence\<close>

datatype event =
    DidFinishLoad int int page_reply
  | ResetTimerFires timer_id
  | Close page_reply page_reply
  | Closed
  | Destroyed
  | RenderProcessGone gone_reason page_reply
  | RenderProcessGoneResumes
  | Unresponsive
  | Responsive
  | ToggleAlwaysOnTop

fun dispatch :: "host \<Rightarrow> event \<Rightarrow> host" where
  "dispatch s (DidFinishLoad t0 t1 reply) = did_finish_load t0 t1 reply s"
| "dispatch s (ResetTimerFires h) = reset_timer_fires h s"
| "dispatch s (Close reply reply2) = on_close reply reply2 s"
| "dispatch s Closed = on_closed s"
| "dispatch s Destroyed = on_destroyed s"
| "dispatch s (RenderProcessGone reason reply) = render_process_gone reason reply s"
| "dispatch s RenderProcessGoneResumes = render_process_gone_resumes s"
| "dispatch s Unresponsive = on_unresponsive s"
| "dispatch s Responsive = on_responsive s"
| "dispatch s ToggleAlwaysOnTop = toggle_always_on_top s"

definition run :: "host \<Rightarrow> event list \<Rightarrow> host" where
  "run s es = foldl dispatch s es"

text \<open>The interval handles of a task that are live in the process.\<close>

definition live_handles :: "task \<Rightarrow> host \<Rightarrow> timer_id list" where
  "live_handles t s = map fst (filter (\<lambda>e. snd e = t) (host_intervals s))"

text \<open>A load-to-ready cycle: a load-finished signal, then the reset timer it armed fires.\<close>

definition load_ready_cycle :: "int \<times> int \<times> page_reply \<Rightarrow> host \<Rightarrow> host" where
  "load_ready_cycle p s =
     (case p of (t0, t1, reply) \<Rightarrow> reset_timer_fires (next_timer s) (did_finish_load t0 t1 reply s))"

definition installs :: "host \<Rightarrow> nat" where
  "installs s = count_list (trace s) (ExecuteJavaScript InstallScript)"

subsection \<open>Process-wide faults\<close>

text \<open>
  \<^verbatim>\<open>cleanupApp\<close>: \<^verbatim>\<open>app.off\<close> for every entry of \<^verbatim>\<open>appEventListeners\<close>, the list is emptied,
  then the tray is destroyed. The caller wraps it in \<^verbatim>\<open>try\<close>/\<^verbatim>\<open>catch\<close>; \<open>tray_error\<close> is what
  \<^verbatim>\<open>tray.destroy()\<close> throws, if it throws, in which case \<^verbatim>\<open>tray = null\<close> is not reached.
  The call of \<^verbatim>\<open>global.gc\<close>, made when the runtime offers it, changes nothing of the state.
\<close>

definition app_off :: "string \<Rightarrow> host \<Rightarrow> host" where
  "app_off ev s = emit (AppOff ev) (s\<lparr>subscribed := remove1 (App, ev) (subscribed s)\<rparr>)"

definition cleanupApp :: "js_value option \<Rightarrow> host \<Rightarrow> js_value option \<times> host" where
  "cleanupApp tray_error s =
     (let s1 = (foldl (\<lambda>q ev. app_off ev q) s (appEventListeners s))\<lparr>appEventListeners := []\<rparr> in
      if tray s1 then
        (case tray_error of
           Some error \<Rightarrow> (Some error, s1)
         | None \<Rightarrow> (None, emit TrayDestroy (s1\<lparr>tray := False\<rparr>)))
      else (None, s1))"

text \<open>
  \<^verbatim>\<open>performGracefulCleanup\<close>: the cleanup request resolves the inner promise when the page
  answers or when the request throws, after a warning that is given the error as it is;
  \<^verbatim>\<open>Promise.race\<close> with a timer of 3000 ms goes on when the page never answers. What
  \<^verbatim>\<open>cleanupApp\<close> throws is logged as it is.
\<close>

definition performGracefulCleanup :: "page_reply \<Rightarrow> js_value option \<Rightarrow> host \<Rightarrow> host" where
  "performGracefulCleanup reply tray_error s =
     (let s1 = (if window_usable s then
                  (let q = emit (ExecuteJavaScript CleanupScript) s in
                   case reply of
                     ThrowsSynchronously error \<Rightarrow>
                       emit (ConsoleWarn ''Failed to execute JavaScript cleanup:'' [Raw error]) q
                   | Rejects error \<Rightarrow> emit (ConsoleWarn ''JavaScript cleanup failed:'' [Raw error]) q
                   | Resolves \<Rightarrow> q
                   | NeverSettles \<Rightarrow> emit (RaceTimedOut 3000) q)
                else s);
          (thrown, s2) = cleanupApp tray_error s1
      in case thrown of
           None \<Rightarrow> s2
         | Some cleanupError \<Rightarrow> emit (ConsoleError ''App cleanup failed:'' [Raw cleanupError]) s2)"

definition process_exit :: "int \<Rightarrow> host \<Rightarrow> host" where
  "process_exit code s = emit (ProcessExit code) (s\<lparr>exit_status := Some code\<rparr>)"

text \<open>The listener given to \<^verbatim>\<open>addAppListener('uncaughtException', ...)\<close>. The promise of
  \<^verbatim>\<open>performGracefulCleanup\<close> is always fulfilled, so its \<^verbatim>\<open>.then\<close> callback runs.\<close>

definition uncaughtException :: "js_value \<Rightarrow> page_reply \<Rightarrow> js_value option \<Rightarrow> host \<Rightarrow> host" where
  "uncaughtException error reply tray_error s =
     (let s1 = emit (ConsoleError ''Uncaught Exception:'' [Fault (sanitizeError error)]) s;
          s2 = performGracefulCleanup reply tray_error s1;
          s3 = emit (ConsoleLog ''Graceful cleanup completed'') s2
      in process_exit 1 s3)"

text \<open>
  The listener given to \<^verbatim>\<open>addAppListener('unhandledRejection', ...)\<close>:
  \<^verbatim>\<open>console.error('Unhandled Rejection at:', promise, 'reason:', sanitizedReason)\<close>, where
  \<^verbatim>\<open>promise\<close> is the promise that was rejected with \<open>reason\<close>; then the cleanup request is
  sent and not awaited (``non-blocking for rejections''), and the listener ends.
\<close>

definition unhandledRejection :: "js_value \<Rightarrow> page_reply \<Rightarrow> host \<Rightarrow> host" where
  "unhandledRejection reason reply s =
     (let s1 = emit (ConsoleError ''Unhandled Rejection at:''
                       [RejectedPromise reason, Text ''reason:'', Fault (sanitizeError reason)]) s in
      if window_usable s1 then
        (let s2 = emit (ExecuteJavaScript CleanupScript) s1 in
         case reply of
           ThrowsSynchronously error \<Rightarrow>
             emit (ConsoleWarn ''Failed to execute JavaScript cleanup during unhandled rejection:''
                     [Raw error]) s2
         | Rejects error \<Rightarrow>
             emit (ConsoleWarn ''JavaScript cleanup failed during unhandled rejection:'' [Raw error]) s2
         | _ \<Rightarrow> s2)
      else s1)"

text \<open>
  A fault at the process level: a value thrown and caught nowhere, or a promise rejected
  with a reason and handled nowhere. The runtime reports the first by the event
  \<^verbatim>\<open>uncaughtException\<close> and the second by the event \<^verbatim>\<open>unhandledRejection\<close>, both emitted by
  \<^verbatim>\<open>process\<close>; \<^verbatim>\<open>app\<close> emits neither. The listeners of the program that are subscribed to
  the event on \<^verbatim>\<open>process\<close> run; when there is none, no code of the program runs, and what
  the runtime does then is not part of the model.
\<close>

datatype fault = Thrown js_value | Rejected js_value

definition process_fault :: "fault \<Rightarrow> page_reply \<Rightarrow> js_value option \<Rightarrow> host \<Rightarrow> host" where
  "process_fault f reply tray_error s =
     (case f of
        Thrown error \<Rightarrow>
          if (Process, ''uncaughtException'') \<in> set (subscribed s)
          then uncaughtException error reply tray_error s else s
      | Rejected reason \<Rightarrow>
          if (Process, ''unhandledRejection'') \<in> set (subscribed s)
          then unhandledRejection reason reply s else s)"

subsection \<open>What a cleanup releases\<close>

text \<open>The keys of a registry object that are set, and the releases of each kind in a log.\<close>

definition present :: "'a option list \<Rightarrow> 'a list" where
  "present ks = concat (map (\<lambda>k. case k of None \<Rightarrow> [] | Some v \<Rightarrow> [v]) ks)"

fun cleared_intervals :: "release list \<Rightarrow> timer_id list" where
  "cleared_intervals [] = []"
| "cleared_intervals (ClearedInterval h # rs) = h # cleared_intervals rs"
| "cleared_intervals (_ # rs) = cleared_intervals rs"

fun cleared_timeouts :: "release list \<Rightarrow> timer_id list" where
  "cleared_timeouts [] = []"
| "cleared_timeouts (ClearedTimeout h # rs) = h # cleared_timeouts rs"
| "cleared_timeouts (_ # rs) = cleared_timeouts rs"

fun removed_listeners :: "release list \<Rightarrow> fn_ref list" where
  "removed_listeners [] = []"
| "removed_listeners (RemovedListener tg ty f # rs) = f # removed_listeners rs"
| "removed_listeners (_ # rs) = removed_listeners rs"

fun removed_nodes :: "release list \<Rightarrow> node_ref list" where
  "removed_nodes [] = []"
| "removed_nodes (RemovedNode n # rs) = n # removed_nodes rs"
| "removed_nodes (_ # rs) = removed_nodes rs"

definition handler_keys :: "mgr_handlers \<Rightarrow> fn_ref option list" where
  "handler_keys h =
     [ref_handleScroll h, ref_handleWheel h, ref_handleMouseMove h, ref_handleScrollShow h,
      ref_pinMouseEnter h, ref_pinMouseLeave h, ref_pinClick h]"

definition button_handler_refs :: "button_handlers option \<Rightarrow> fn_ref list" where
  "button_handler_refs b =
     (case b of None \<Rightarrow> []
      | Some hs \<Rightarrow> [bh_mouseEnter hs, bh_mouseLeave hs, bh_click hs, bh_mouseDown hs, bh_mouseUp hs])"

text \<open>
  The pin handlers are stored by \<^verbatim>\<open>createFloatingPinButton\<close> together with the button; the
  cleanup removes them inside \<^verbatim>\<open>if (manager.elements.pinButton)\<close>.
\<close>

definition pin_handlers_on_button :: "manager \<Rightarrow> bool" where
  "pin_handlers_on_button m \<longleftrightarrow>
     (el_pinButton (elements m) = None \<longrightarrow>
        ref_pinMouseEnter (handlers m) = None \<and> ref_pinMouseLeave (handlers m) = None \<and>
        ref_pinClick (handlers m) = None)"

text \<open>
  The invariant of a page: \<^verbatim>\<open>window.scrollRefreshCleanup\<close> is defined exactly while the manager
  of the last install is live.
\<close>

definition page_inv :: "page \<Rightarrow> bool" where
  "page_inv pg =
     (case registry pg of
        Live m \<Rightarrow> window_scrollRefreshCleanup pg \<and> pin_handlers_on_button m
      | _ \<Rightarrow> \<not> window_scrollRefreshCleanup pg)"

text \<open>What one cleanup step appends to the log.\<close>

definition log_of :: "page \<Rightarrow> page \<Rightarrow> release list \<Rightarrow> bool" where
  "log_of pg pg' new \<longleftrightarrow> released pg' = released pg @ new \<and> handlers_prop pg' = handlers_prop pg"


subsection \<open>Invariants and observations of the host\<close>

text \<open>
  The invariant of the interval handles: the live handles of each task are exactly the one
  the window holds, if any; handles are distinct and older than the next one.
\<close>

definition timers_inv :: "host \<Rightarrow> bool" where
  "timers_inv s \<longleftrightarrow>
     live_handles CacheClear s =
       (case mainWindow s of None \<Rightarrow> [] | Some w \<Rightarrow> present [cacheInterval w]) \<and>
     live_handles MemoryMonitor s =
       (case mainWindow s of None \<Rightarrow> [] | Some w \<Rightarrow> present [memoryMonitorInterval w]) \<and>
     distinct (map fst (host_intervals s)) \<and>
     (\<forall>h \<in> fst ` set (host_intervals s). h < next_timer s)"

text \<open>The guard \<^verbatim>\<open>mainWindow._isLoading\<close> is set.\<close>

definition loading :: "host \<Rightarrow> bool" where
  "loading s = (case mainWindow s of None \<Rightarrow> False | Some w \<Rightarrow> isLoading w = Some True)"





text \<open>An effect that gives the console a value that has not passed \<^verbatim>\<open>sanitizeError\<close> (as
  it is, or inside the promise it rejected), and an effect that ends the process.\<close>

fun is_raw :: "log_arg \<Rightarrow> bool" where
  "is_raw (Raw v) = True"
| "is_raw (RejectedPromise v) = True"
| "is_raw _ = False"

definition discloses :: "effect \<Rightarrow> bool" where
  "discloses e =
     (case e of
        ConsoleError l args \<Rightarrow> list_ex is_raw args
      | ConsoleWarn l args \<Rightarrow> list_ex is_raw args
      | _ \<Rightarrow> False)"

definition exits :: "effect \<Rightarrow> bool" where
  "exits e = (case e of ProcessExit c \<Rightarrow> True | _ \<Rightarrow> False)"


section \<open>URL policy: theorems\<close>

text \<open>
  C4. Every window-open request is answered with \<open>Deny\<close>. The URL goes to
  \<^verbatim>\<open>shell.openExternal\<close> exactly when the constructor accepts it and its protocol is
  \<^verbatim>\<open>https:\<close>, \<^verbatim>\<open>mailto:\<close> or \<^verbatim>\<open>tel:\<close>; otherwise the only effect is the warning. In
  particular an input the constructor rejects, and a URL whose protocol is \<^verbatim>\<open>http:\<close>,
  \<^verbatim>\<open>file:\<close>, \<^verbatim>\<open>ftp:\<close>, \<^verbatim>\<open>javascript:\<close>, \<^verbatim>\<open>data:\<close>, \<^verbatim>\<open>blob:\<close> or \<^verbatim>\<open>vbscript:\<close>, is
  not opened.
\<close>

theorem windowOpenHandler_policy:
  "snd (windowOpenHandler new_URL u) = Deny \<and>
   (fst (windowOpenHandler new_URL u) = [OpenExternal u] \<or>
    fst (windowOpenHandler new_URL u) = [WarnBlocked u]) \<and>
   (fst (windowOpenHandler new_URL u) = [OpenExternal u] \<longleftrightarrow>
      (\<exists>p. new_URL u = Some p \<and>
         (protocol p = utf16 ''https:'' \<or> protocol p = utf16 ''mailto:'' \<or> protocol p = utf16 ''tel:''))) \<and>
   (new_URL u = None \<longrightarrow> fst (windowOpenHandler new_URL u) = [WarnBlocked u]) \<and>
   (\<forall>p. new_URL u = Some p \<and>
        protocol p \<in> {utf16 ''http:'', utf16 ''file:'', utf16 ''ftp:'', utf16 ''javascript:'',
                      utf16 ''data:'', utf16 ''blob:'', utf16 ''vbscript:''}
      \<longrightarrow> fst (windowOpenHandler new_URL u) = [WarnBlocked u])"
  by (auto simp: windowOpenHandler_def isSafeUrl_def ALLOWED_PROTOCOLS_def utf16_def split: option.splits)

theorem windowOpenHandler_policy_witness:
  "tested_URL (JString (utf16 ''http://example.com'')) =
     Some \<lparr>protocol = utf16 ''http:'', origin = utf16 ''http://example.com''\<rparr> \<and>
   windowOpenHandler tested_URL (JString (utf16 ''http://example.com'')) =
     ([WarnBlocked (JString (utf16 ''http://example.com''))], Deny) \<and>
   tested_URL JNull = None \<and>
   windowOpenHandler tested_URL JNull = ([WarnBlocked JNull], Deny) \<and>
   tested_URL (JString (utf16 ''mailto:test@example.com'')) =
     Some \<lparr>protocol = utf16 ''mailto:'', origin = utf16 ''null''\<rparr> \<and>
   windowOpenHandler tested_URL (JString (utf16 ''mailto:test@example.com'')) =
     ([OpenExternal (JString (utf16 ''mailto:test@example.com''))], Deny)"
proof -
  have p: "tested_URL (JString (utf16 ''http://example.com'')) =
     Some \<lparr>protocol = utf16 ''http:'', origin = utf16 ''http://example.com''\<rparr>"
    by (simp add: tested_urls_def utf16_def)
  have q: "tested_URL JNull = None"
    by simp
  have r: "tested_URL (JString (utf16 ''mailto:test@example.com'')) =
     Some \<lparr>protocol = utf16 ''mailto:'', origin = utf16 ''null''\<rparr>"
    by (simp add: tested_urls_def utf16_def)
  from windowOpenHandler_policy [of tested_URL "JString (utf16 ''http://example.com'')"] p
  have 1: "windowOpenHandler tested_URL (JString (utf16 ''http://example.com'')) =
     ([WarnBlocked (JString (utf16 ''http://example.com''))], Deny)"
    by (simp add: prod_eq_iff)
  from windowOpenHandler_policy [of tested_URL JNull] q
  have 2: "windowOpenHandler tested_URL JNull = ([WarnBlocked JNull], Deny)"
    by (simp add: prod_eq_iff)
  from windowOpenHandler_policy [of tested_URL "JString (utf16 ''mailto:test@example.com'')"] r
  have 3: "windowOpenHandler tested_URL (JString (utf16 ''mailto:test@example.com'')) =
     ([OpenExternal (JString (utf16 ''mailto:test@example.com''))], Deny)"
    by (simp add: prod_eq_iff)
  from p q r 1 2 3 show ?thesis by blast
qed

text \<open>
  The in-place rule on a URL the constructor accepts: \<^verbatim>\<open>preventDefault\<close> is called exactly
  when the origin differs from \<^verbatim>\<open>https://bsky.app\<close>.
\<close>

lemma will_navigate_parsed:
  "new_URL u = Some p \<Longrightarrow> will_navigate new_URL u = Inr (origin p \<noteq> utf16 ''https://bsky.app'')"
  by (simp add: will_navigate_def home_origin_def)

lemma will_navigate_throws:
  "new_URL u = None \<Longrightarrow> will_navigate new_URL u = Inl TypeError"
  by (simp add: will_navigate_def)

text \<open>
  C5. The claim asks that a navigation to a URL that does not parse is denied. On the input
  \<^verbatim>\<open>not-a-url\<close>, which the constructor rejects, the listener throws before it reaches
  \<^verbatim>\<open>event.preventDefault()\<close>: the navigation is not prevented.
\<close>

theorem will_navigate_unparsable:
  "will_navigate tested_URL (JString (utf16 ''not-a-url'')) = Inl TypeError"
  by (simp add: will_navigate_def tested_urls_def utf16_def)

section \<open>Error sanitizers: theorems\<close>

text \<open>
  C7. \<open>sanitizeError\<close> is a function with a value for every input. On an \<^verbatim>\<open>Error\<close> it keeps
  the name, gives the fixed message whatever the message and the stack of the input were,
  and gives no stack. On a string, a number, a boolean, a plain object, \<^verbatim>\<open>null\<close> and
  \<^verbatim>\<open>undefined\<close>, and on every value that is not an \<^verbatim>\<open>Error\<close>, it gives the marker
  \<^verbatim>\<open>Unknown error\<close>.
\<close>

theorem sanitizeError_generic:
  "sanitizeError (JError e) = FaultRecord (err_name e) (utf16 ''Application error occurred'') None \<and>
   sanitizeError (JError (e\<lparr>err_message := m, err_stack := st\<rparr>)) = sanitizeError (JError e) \<and>
   sanitizeError (JString s) = Marker (utf16 ''Unknown error'') \<and>
   sanitizeError (JNumber n) = Marker (utf16 ''Unknown error'') \<and>
   sanitizeError (JBoolean b) = Marker (utf16 ''Unknown error'') \<and>
   sanitizeError (JObject props) = Marker (utf16 ''Unknown error'') \<and>
   sanitizeError JNull = Marker (utf16 ''Unknown error'') \<and>
   sanitizeError JUndefined = Marker (utf16 ''Unknown error'') \<and>
   ((\<forall>e'. v \<noteq> JError e') \<longrightarrow> sanitizeError v = Marker (utf16 ''Unknown error''))"
  by (cases v) (simp_all add: sanitizeError_def)

theorem sanitizeError_generic_witness:
  "(\<forall>e'. JString (utf16 ''boom'') \<noteq> JError e') \<and>
   sanitizeError (JString (utf16 ''boom'')) = Marker (utf16 ''Unknown error'')"
  using sanitizeError_generic
    [of undefined undefined undefined undefined undefined undefined undefined "JString (utf16 ''boom'')"]
  by simp

lemma kept_mask_char: "kept mask_char"
  by (simp add: kept_def mask_char_def listed_punctuation_def utf16_def)

lemma set_scrub_kept: "c \<in> set (scrub m) \<Longrightarrow> kept c"
  by (auto simp: scrub_def kept_mask_char)

lemma scrub_unchanged: "(\<forall>c\<in>set m. kept c) \<Longrightarrow> scrub m = m"
  by (simp add: scrub_def map_idI)

lemma scrub_masks: "c \<in> set m \<Longrightarrow> \<not> kept c \<Longrightarrow> mask_char \<in> set (scrub m)"
  by (force simp: scrub_def)

lemma scrub_no_unkept_sublist:
  assumes "c \<in> set p" and "\<not> kept c"
  shows "\<not> sublist p (scrub m)"
proof
  assume "sublist p (scrub m)"
  then have "set p \<subseteq> set (scrub m)" by (rule set_mono_sublist)
  with assms(1) have "c \<in> set (scrub m)" by blast
  then have "kept c" by (rule set_scrub_kept)
  with assms(2) show False by contradiction
qed

lemma scrub_script_tag:
  "scrub (utf16 ''<script>alert(1)</script>'') = utf16 ''*script*alert(1)**script*''"
  by (simp add: scrub_def utf16_def kept_def word_char_def white_space_def
      listed_punctuation_def mask_char_def)

text \<open>
  C8, as the claim states it, fails: a tab is outside the allow-set the claim writes, and
  the message \<^verbatim>\<open>a<TAB>b\<close> comes back unchanged, with no mask character in it.
\<close>

theorem scrub_whitespace_counterexample:
  "\<not> spec_allow_set 0x09 \<and> 0x09 \<in> set [0x61, 0x09, 0x62] \<and>
   sanitizeError_scrubbing
     (JError \<lparr>err_name = utf16 ''Error'', err_message = [0x61, 0x09, 0x62], err_stack = None\<rparr>)
     = ScrubbedRecord (utf16 ''Error'') [0x61, 0x09, 0x62] \<and>
   mask_char \<notin> set [0x61, 0x09, 0x62]"
  by (simp add: spec_allow_set_def word_char_def listed_punctuation_def utf16_def
      sanitizeError_scrubbing_def scrub_def kept_def white_space_def mask_char_def)

text \<open>
  C8, amended. The code units that stay are those of the allow-set of the claim and, in
  addition, every white-space code unit of \<^verbatim>\<open>\s\<close>. The scrubbed message has the length of
  the input, keeps each kept code unit at its place and has the mask at every other place;
  it contains a mask when the input has a code unit that is not kept, equals the input when
  all are kept, and contains no string that has a code unit that is not kept.
\<close>

theorem sanitizeError_scrubbing_regex:
  "scrubbed_name (sanitizeError_scrubbing (JError e)) = err_name e \<and>
   length (scrubbed_message (sanitizeError_scrubbing (JError e))) = length (err_message e) \<and>
   (\<forall>i < length (err_message e).
      scrubbed_message (sanitizeError_scrubbing (JError e)) ! i =
        (if kept (err_message e ! i) then err_message e ! i else mask_char)) \<and>
   ((\<exists>c \<in> set (err_message e). \<not> kept c) \<longrightarrow>
      mask_char \<in> set (scrubbed_message (sanitizeError_scrubbing (JError e)))) \<and>
   ((\<forall>c \<in> set (err_message e). kept c) \<longrightarrow>
      scrubbed_message (sanitizeError_scrubbing (JError e)) = err_message e) \<and>
   (\<forall>p. (\<exists>c \<in> set p. \<not> kept c) \<longrightarrow>
      \<not> sublist p (scrubbed_message (sanitizeError_scrubbing (JError e)))) \<and>
   (\<forall>c. kept c \<longleftrightarrow> spec_allow_set c \<or> white_space c)"
proof -
  have out: "scrubbed_message (sanitizeError_scrubbing (JError e)) = scrub (err_message e)"
    by (simp add: sanitizeError_scrubbing_def)
  have "scrubbed_name (sanitizeError_scrubbing (JError e)) = err_name e"
    by (simp add: sanitizeError_scrubbing_def)
  moreover have "length (scrub (err_message e)) = length (err_message e)"
    by (simp add: scrub_def)
  moreover have "\<forall>i < length (err_message e).
      scrub (err_message e) ! i = (if kept (err_message e ! i) then err_message e ! i else mask_char)"
    by (simp add: scrub_def)
  moreover have "(\<exists>c \<in> set (err_message e). \<not> kept c) \<longrightarrow> mask_char \<in> set (scrub (err_message e))"
    by (blast intro: scrub_masks)
  moreover have "(\<forall>c \<in> set (err_message e). kept c) \<longrightarrow> scrub (err_message e) = err_message e"
    by (simp add: scrub_unchanged)
  moreover have "\<forall>p. (\<exists>c \<in> set p. \<not> kept c) \<longrightarrow> \<not> sublist p (scrub (err_message e))"
    using scrub_no_unkept_sublist by blast
  moreover have "\<forall>c. kept c \<longleftrightarrow> spec_allow_set c \<or> white_space c"
    by (auto simp: kept_def spec_allow_set_def white_space_def)
  ultimately show ?thesis unfolding out by blast
qed

theorem sanitizeError_scrubbing_regex_witness:
  "(\<exists>c \<in> set (utf16 ''<script>alert(1)</script>''). \<not> kept c) \<and>
   mask_char \<in> set (scrubbed_message (sanitizeError_scrubbing
      (JError \<lparr>err_name = utf16 ''Error'', err_message = utf16 ''<script>alert(1)</script>'',
               err_stack = None\<rparr>))) \<and>
   \<not> sublist (utf16 ''<script>'') (scrubbed_message (sanitizeError_scrubbing
      (JError \<lparr>err_name = utf16 ''Error'', err_message = utf16 ''<script>alert(1)</script>'',
               err_stack = None\<rparr>)))"
proof -
  have a: "\<exists>c \<in> set (utf16 ''<script>alert(1)</script>''). \<not> kept c"
    by (simp add: utf16_def kept_def word_char_def white_space_def listed_punctuation_def)
  have b: "\<exists>c \<in> set (utf16 ''<script>''). \<not> kept c"
    by (simp add: utf16_def kept_def word_char_def white_space_def listed_punctuation_def)
  from sanitizeError_scrubbing_regex
    [of "\<lparr>err_name = utf16 ''Error'', err_message = utf16 ''<script>alert(1)</script>'',
          err_stack = None\<rparr>"]
    a b
  show ?thesis by simp
qed

section \<open>Page enhancement controller: theorems\<close>

subsection \<open>The log of a cleanup\<close>

lemma proj_append [simp]:
  "cleared_intervals (xs @ ys) = cleared_intervals xs @ cleared_intervals ys"
  "cleared_timeouts (xs @ ys) = cleared_timeouts xs @ cleared_timeouts ys"
  "removed_listeners (xs @ ys) = removed_listeners xs @ removed_listeners ys"
  "removed_nodes (xs @ ys) = removed_nodes xs @ removed_nodes ys"
  by (induction xs rule: cleared_intervals.induct; simp)+

lemma log_of_trans: "log_of a b xs \<Longrightarrow> log_of b c ys \<Longrightarrow> log_of a c (xs @ ys)"
  by (simp add: log_of_def)

lemma log_clearInterval: "log_of pg (when_set k clearInterval pg) (map ClearedInterval (present [k]))"
  by (cases k) (simp_all add: log_of_def when_set_def clearInterval_def present_def)

lemma log_clearTimeouts:
  "log_of pg (foldl (\<lambda>q k. when_set k clearTimeout q) pg ks) (map ClearedTimeout (present ks))"
proof (induction ks arbitrary: pg)
  case Nil
  then show ?case by (simp add: log_of_def present_def)
next
  case (Cons k ks)
  have "log_of pg (when_set k clearTimeout pg) (map ClearedTimeout (present [k]))"
    by (cases k) (simp_all add: log_of_def when_set_def clearTimeout_def present_def)
  from log_of_trans [OF this Cons.IH [of "when_set k clearTimeout pg"]]
  show ?case by (simp add: present_def)
qed

lemma log_removeListener:
  "log_of pg (when_set k (removeEventListener tg ty) pg) (map (RemovedListener tg ty) (present [k]))"
  by (cases k) (simp_all add: log_of_def when_set_def removeEventListener_def present_def)

lemma log_remove_node:
  "log_of pg (when_set k remove_node pg) (map RemovedNode (present [k]))"
  by (cases k) (simp_all add: log_of_def when_set_def remove_node_def present_def)

lemma log_remove_pin_button:
  "\<exists>new. log_of pg (remove_pin_button m pg) new \<and> cleared_intervals new = [] \<and>
     cleared_timeouts new = [] \<and>
     (pin_handlers_on_button m \<longrightarrow>
        removed_listeners new =
          present [ref_pinMouseEnter (handlers m), ref_pinMouseLeave (handlers m), ref_pinClick (handlers m)]) \<and>
     removed_nodes new = present [el_pinButton (elements m)]"
proof (cases "el_pinButton (elements m)")
  case None
  then have "log_of pg (remove_pin_button m pg) []"
    by (simp add: remove_pin_button_def log_of_def)
  with None show ?thesis
    by (intro exI [of _ "[]"]) (simp add: present_def pin_handlers_on_button_def)
next
  case (Some b)
  let ?new = "map (RemovedListener (Node b) ''mouseenter'') (present [ref_pinMouseEnter (handlers m)]) @
              map (RemovedListener (Node b) ''mouseleave'') (present [ref_pinMouseLeave (handlers m)]) @
              map (RemovedListener (Node b) ''click'') (present [ref_pinClick (handlers m)]) @
              [RemovedNode b]"
  have "log_of pg (remove_pin_button m pg) ?new"
    using Some
    by (cases "ref_pinMouseEnter (handlers m)"; cases "ref_pinMouseLeave (handlers m)";
        cases "ref_pinClick (handlers m)")
       (simp_all add: remove_pin_button_def log_of_def when_set_def removeEventListener_def
          remove_node_def present_def)
  moreover have "cleared_intervals ?new = []" "cleared_timeouts ?new = []"
    "removed_nodes ?new = present [el_pinButton (elements m)]"
    "removed_listeners ?new =
          present [ref_pinMouseEnter (handlers m), ref_pinMouseLeave (handlers m), ref_pinClick (handlers m)]"
    using Some
    by (cases "ref_pinMouseEnter (handlers m)"; cases "ref_pinMouseLeave (handlers m)";
        cases "ref_pinClick (handlers m)"; simp add: present_def)+
  ultimately show ?thesis by blast
qed

lemma log_remove_floating_button:
  "\<exists>new. released (remove_floating_button m pg) = released pg @ new \<and> cleared_intervals new = [] \<and>
     cleared_timeouts new = [] \<and>
     removed_listeners new =
       (case el_floatingBtn (elements m) of None \<Rightarrow> [] | Some b \<Rightarrow> button_handler_refs (handlers_prop pg b)) \<and>
     removed_nodes new = present [el_floatingBtn (elements m)]"
proof (cases "el_floatingBtn (elements m)")
  case None
  then show ?thesis
    by (intro exI [of _ "[]"]) (simp add: remove_floating_button_def present_def)
next
  case (Some b)
  show ?thesis
  proof (cases "handlers_prop pg b")
    case None
    with Some show ?thesis
      by (intro exI [of _ "[RemovedNode b]"])
         (simp add: remove_floating_button_def present_def remove_node_def button_handler_refs_def)
  next
    case (Some hs)
    with \<open>el_floatingBtn (elements m) = Some b\<close> show ?thesis
      by (intro exI [of _ "[RemovedListener (Node b) ''mouseenter'' (bh_mouseEnter hs),
             RemovedListener (Node b) ''mouseleave'' (bh_mouseLeave hs),
             RemovedListener (Node b) ''click'' (bh_click hs),
             RemovedListener (Node b) ''mousedown'' (bh_mouseDown hs),
             RemovedListener (Node b) ''mouseup'' (bh_mouseUp hs), RemovedNode b]"])
         (simp add: remove_floating_button_def present_def remove_node_def button_handler_refs_def
            removeEventListener_def)
  qed
qed


lemma proj_map [simp]:
  "cleared_intervals (map ClearedInterval xs) = xs"
  "cleared_intervals (map ClearedTimeout xs) = []"
  "cleared_intervals (map (RemovedListener tg ty) xs) = []"
  "cleared_intervals (map RemovedNode xs) = []"
  "cleared_timeouts (map ClearedInterval xs) = []"
  "cleared_timeouts (map ClearedTimeout xs) = xs"
  "cleared_timeouts (map (RemovedListener tg ty) xs) = []"
  "cleared_timeouts (map RemovedNode xs) = []"
  "removed_listeners (map ClearedInterval xs) = []"
  "removed_listeners (map ClearedTimeout xs) = []"
  "removed_listeners (map (RemovedListener tg ty) xs) = xs"
  "removed_listeners (map RemovedNode xs) = []"
  "removed_nodes (map ClearedInterval xs) = []"
  "removed_nodes (map ClearedTimeout xs) = []"
  "removed_nodes (map (RemovedListener tg ty) xs) = []"
  "removed_nodes (map RemovedNode xs) = xs"
  by (induction xs; simp)+

lemma present_append: "present (xs @ ys) = present xs @ present ys"
  by (simp add: present_def)

lemma present_Cons: "present (x # xs) = present [x] @ present xs"
  by (simp add: present_def)

lemma scrollRefreshCleanup_live:
  assumes live: "registry pg = Live m"
  shows "\<exists>pg' new.
     scrollRefreshCleanup pg = Inr pg' \<and> registry pg' = Cleared \<and>
     \<not> window_scrollRefreshCleanup pg' \<and> window_scrollRefreshInterval pg' = None \<and>
     released pg' = released pg @ new \<and>
     cleared_intervals new = present [idle (intervals m)] \<and>
     cleared_timeouts new = present (timeout_keys (timeouts m)) \<and>
     (pin_handlers_on_button m \<longrightarrow>
        removed_listeners new =
          present (handler_keys (handlers m)) @
          (case el_floatingBtn (elements m) of None \<Rightarrow> []
           | Some b \<Rightarrow> button_handler_refs (handlers_prop pg b))) \<and>
     removed_nodes new =
       present [el_pinButton (elements m), el_floatingBtn (elements m), el_indicator (elements m),
                el_spinnerStyle (elements m), el_btnStyle (elements m)]"
proof -
  define pg1 where "pg1 = when_set (idle (intervals m)) clearInterval pg"
  define pg2 where "pg2 = foldl (\<lambda>q k. when_set k clearTimeout q) pg1 (timeout_keys (timeouts m))"
  define pg3 where "pg3 = when_set (ref_handleScroll (handlers m)) (removeEventListener Window ''scroll'') pg2"
  define pg4 where "pg4 = when_set (ref_handleWheel (handlers m)) (removeEventListener Window ''wheel'') pg3"
  define pg5 where "pg5 = when_set (ref_handleMouseMove (handlers m)) (removeEventListener Document ''mousemove'') pg4"
  define pg6 where "pg6 = when_set (ref_handleScrollShow (handlers m)) (removeEventListener Window ''scroll'') pg5"
  define pg7 where "pg7 = remove_pin_button m pg6"
  define pg8 where "pg8 = remove_floating_button m pg7"
  define pg9 where "pg9 = when_set (el_indicator (elements m)) remove_node pg8"
  define pg10 where "pg10 = when_set (el_spinnerStyle (elements m)) remove_node pg9"
  define pg11 where "pg11 = when_set (el_btnStyle (elements m)) remove_node pg10"
  define pg' where "pg' = pg11\<lparr>window_scrollRefreshCleanup := False,
                       window_scrollRefreshInterval := None, registry := Cleared\<rparr>"
  have run: "scrollRefreshCleanup pg = Inr pg'"
    using live
    by (simp add: scrollRefreshCleanup_def Let_def pg'_def pg11_def pg10_def pg9_def pg8_def
        pg7_def pg6_def pg5_def pg4_def pg3_def pg2_def pg1_def)
  define n1 where "n1 = map ClearedInterval (present [idle (intervals m)])"
  define n2 where "n2 = map ClearedTimeout (present (timeout_keys (timeouts m)))"
  define n3 where "n3 = map (RemovedListener Window ''scroll'') (present [ref_handleScroll (handlers m)])"
  define n4 where "n4 = map (RemovedListener Window ''wheel'') (present [ref_handleWheel (handlers m)])"
  define n5 where "n5 = map (RemovedListener Document ''mousemove'') (present [ref_handleMouseMove (handlers m)])"
  define n6 where "n6 = map (RemovedListener Window ''scroll'') (present [ref_handleScrollShow (handlers m)])"
  have l1: "log_of pg pg1 n1" unfolding pg1_def n1_def by (rule log_clearInterval)
  have l2: "log_of pg1 pg2 n2" unfolding pg2_def n2_def by (rule log_clearTimeouts)
  have l3: "log_of pg2 pg3 n3" unfolding pg3_def n3_def by (rule log_removeListener)
  have l4: "log_of pg3 pg4 n4" unfolding pg4_def n4_def by (rule log_removeListener)
  have l5: "log_of pg4 pg5 n5" unfolding pg5_def n5_def by (rule log_removeListener)
  have l6: "log_of pg5 pg6 n6" unfolding pg6_def n6_def by (rule log_removeListener)
  obtain n7 where l7: "log_of pg6 pg7 n7" and p7: "cleared_intervals n7 = []" "cleared_timeouts n7 = []"
     "pin_handlers_on_button m \<longrightarrow> removed_listeners n7 =
          present [ref_pinMouseEnter (handlers m), ref_pinMouseLeave (handlers m), ref_pinClick (handlers m)]"
     "removed_nodes n7 = present [el_pinButton (elements m)]"
    unfolding pg7_def using log_remove_pin_button [of pg6 m] by blast
  have to7: "log_of pg pg7 (n1 @ n2 @ n3 @ n4 @ n5 @ n6 @ n7)"
    using l1 l2 l3 l4 l5 l6 l7 by (simp add: log_of_def)
  then have hp: "handlers_prop pg7 = handlers_prop pg" by (simp add: log_of_def)
  obtain n8 where l8: "released pg8 = released pg7 @ n8" and q8: "cleared_intervals n8 = []"
     "cleared_timeouts n8 = []"
     "removed_listeners n8 =
       (case el_floatingBtn (elements m) of None \<Rightarrow> [] | Some b \<Rightarrow> button_handler_refs (handlers_prop pg7 b))"
     "removed_nodes n8 = present [el_floatingBtn (elements m)]"
    unfolding pg8_def using log_remove_floating_button [of m pg7] by blast
  have p8: "cleared_intervals n8 = []" "cleared_timeouts n8 = []"
     "removed_listeners n8 =
       (case el_floatingBtn (elements m) of None \<Rightarrow> [] | Some b \<Rightarrow> button_handler_refs (handlers_prop pg b))"
     "removed_nodes n8 = present [el_floatingBtn (elements m)]"
    using q8 unfolding hp by simp_all
  define n9 where "n9 = map RemovedNode (present [el_indicator (elements m)])"
  define n10 where "n10 = map RemovedNode (present [el_spinnerStyle (elements m)])"
  define n11 where "n11 = map RemovedNode (present [el_btnStyle (elements m)])"
  have l9: "log_of pg8 pg9 n9" unfolding pg9_def n9_def by (rule log_remove_node)
  have l10: "log_of pg9 pg10 n10" unfolding pg10_def n10_def by (rule log_remove_node)
  have l11: "log_of pg10 pg11 n11" unfolding pg11_def n11_def by (rule log_remove_node)
  define new where "new = n1 @ n2 @ n3 @ n4 @ n5 @ n6 @ n7 @ n8 @ n9 @ n10 @ n11"
  have rel: "released pg' = released pg @ new"
    using to7 l8 l9 l10 l11 by (simp add: log_of_def pg'_def new_def)
  have ci: "cleared_intervals new = present [idle (intervals m)]"
    by (simp add: new_def n1_def n2_def n3_def n4_def n5_def n6_def p7 p8 n9_def n10_def n11_def)
  have ct: "cleared_timeouts new = present (timeout_keys (timeouts m))"
    by (simp add: new_def n1_def n2_def n3_def n4_def n5_def n6_def p7 p8 n9_def n10_def n11_def)
  have rn: "removed_nodes new =
       present [el_pinButton (elements m), el_floatingBtn (elements m), el_indicator (elements m),
                el_spinnerStyle (elements m), el_btnStyle (elements m)]"
    by (simp add: new_def n1_def n2_def n3_def n4_def n5_def n6_def p7 p8 n9_def n10_def n11_def)
       (simp add: present_def)
  have rl: "pin_handlers_on_button m \<longrightarrow>
        removed_listeners new =
          present (handler_keys (handlers m)) @
          (case el_floatingBtn (elements m) of None \<Rightarrow> []
           | Some b \<Rightarrow> button_handler_refs (handlers_prop pg b))"
    using p7(3)
    by (simp add: new_def n1_def n2_def n3_def n4_def n5_def n6_def p7(1,2,4) p8 n9_def n10_def n11_def
        handler_keys_def)
       (simp add: present_def)
  have "registry pg' = Cleared" "\<not> window_scrollRefreshCleanup pg'"
       "window_scrollRefreshInterval pg' = None"
    by (simp_all add: pg'_def)
  with run rel ci ct rl rn show ?thesis by blast
qed


subsection \<open>The invariant of a page\<close>


lemma createFloatingPinButton_pin:
  "pin_handlers_on_button m \<Longrightarrow> pin_handlers_on_button (fst (createFloatingPinButton (m, pg)))"
  by (simp add: createFloatingPinButton_def pin_handlers_on_button_def Let_def split_def)

lemma createFloatingRefreshButton_pin:
  "pin_handlers_on_button m \<Longrightarrow> pin_handlers_on_button (fst (createFloatingRefreshButton (m, pg)))"
  by (simp add: createFloatingRefreshButton_def pin_handlers_on_button_def Let_def split_def)

lemma page_inv_install_body: "page_inv (install_body pg)"
proof -
  let ?m1 = "new_manager\<lparr>handlers := (handlers new_manager)
                 \<lparr>ref_handleScroll := Some (fresh pg), ref_handleWheel := Some (Suc (fresh pg))\<rparr>\<rparr>"
  have "pin_handlers_on_button ?m1"
    by (simp add: pin_handlers_on_button_def new_manager_def)
  then have "pin_handlers_on_button
     (fst (createFloatingRefreshButton (createFloatingPinButton (?m1, pg\<lparr>fresh := Suc (Suc (fresh pg))\<rparr>))))"
    by (metis createFloatingPinButton_pin createFloatingRefreshButton_pin prod.collapse)
  then show ?thesis
    by (simp add: page_inv_def install_body_def Let_def split_def new_ref_def setInterval_def
        addEventListener_def pin_handlers_on_button_def)
qed

lemma indicator_keeps_pin:
  "handlers (fst (createRefreshIndicator (m, pg))) = handlers m"
  "el_pinButton (elements (fst (createRefreshIndicator (m, pg)))) = el_pinButton (elements m)"
  "window_scrollRefreshCleanup (snd (createRefreshIndicator (m, pg))) = window_scrollRefreshCleanup pg"
  "handlers (fst (showRefreshIndicator (m, pg))) = handlers m"
  "el_pinButton (elements (fst (showRefreshIndicator (m, pg)))) = el_pinButton (elements m)"
  "window_scrollRefreshCleanup (snd (showRefreshIndicator (m, pg))) = window_scrollRefreshCleanup pg"
  "handlers (fst (hideRefreshIndicator (m, pg))) = handlers m"
  "el_pinButton (elements (fst (hideRefreshIndicator (m, pg)))) = el_pinButton (elements m)"
  "window_scrollRefreshCleanup (snd (hideRefreshIndicator (m, pg))) = window_scrollRefreshCleanup pg"
  by (simp_all add: showRefreshIndicator_def createRefreshIndicator_def hideRefreshIndicator_def
      new_ref_def appendChild_def Let_def split_def split: option.splits)

lemma wheel_valid_keeps_pin:
  "handlers (fst (wheel_valid d (m, pg))) = handlers m"
  "el_pinButton (elements (fst (wheel_valid d (m, pg)))) = el_pinButton (elements m)"
  "window_scrollRefreshCleanup (snd (wheel_valid d (m, pg))) = window_scrollRefreshCleanup pg"
  by (simp_all add: wheel_valid_def Let_def split_def indicator_keeps_pin when_set_def
      clearTimeout_def setTimeout_def split: option.splits)

lemma page_inv_handleWheel:
  assumes "page_inv pg" and "handleWheel e pg = Inr pg'"
  shows "page_inv pg'"
proof (cases "\<exists>d m. e = WheelEvent (JNumber (Finite d)) \<and> \<not> \<bar>d\<bar> > 1000 \<and> registry pg = Live m")
  case True
  then obtain d m where e: "e = WheelEvent (JNumber (Finite d))" "\<not> \<bar>d\<bar> > 1000" "registry pg = Live m"
    by blast
  with assms(2) have pg': "pg' = (snd (wheel_valid d (m, pg)))\<lparr>registry := Live (fst (wheel_valid d (m, pg)))\<rparr>"
    by (auto simp: handleWheel_def split_def Let_def)
  from assms(1) e(3) have "window_scrollRefreshCleanup pg" "pin_handlers_on_button m"
    by (simp_all add: page_inv_def)
  then show ?thesis
    unfolding pg' by (simp add: page_inv_def pin_handlers_on_button_def wheel_valid_keeps_pin)
next
  case False
  with assms(2) have "pg' = pg"
    by (auto simp: handleWheel_def split: dom_event.splits js_value.splits js_number.splits
        registry_state.splits if_splits)
  with assms(1) show ?thesis by simp
qed

lemma page_inv_handleScroll:
  assumes "page_inv pg" and "handleScroll pg = Inr pg'"
  shows "page_inv pg'"
proof (cases "registry pg")
  case (Live m)
  with assms(1) have "window_scrollRefreshCleanup pg" "pin_handlers_on_button m"
    by (simp_all add: page_inv_def)
  with assms(2) Live show ?thesis
    by (auto simp: handleScroll_def Let_def split_def page_inv_def pin_handlers_on_button_def
        indicator_keeps_pin split: if_splits)
qed (use assms(2) in \<open>simp_all add: handleScroll_def\<close>)



lemma page_inv_install_script:
  "install_script pg = Inr pg' \<Longrightarrow> page_inv pg'"
  by (auto simp: install_script_def page_inv_install_body split: sum.splits registry_state.splits)

lemma install_body_live: "\<exists>m. registry (install_body pg) = Live m"
  by (simp add: install_body_def Let_def split: prod.splits)

lemma install_script_fresh: "install_script fresh_page = Inr (install_body fresh_page)"
  by (simp add: install_script_def cleanup_script_def fresh_page_def)

text \<open>The install script runs once in a document: run again in the document it has left,
  it fails at its declaration and changes nothing.\<close>

lemma install_script_once:
  assumes "install_script pg = Inr pg'"
  shows "install_script pg' = Inl SyntaxError"
proof -
  from assms obtain pg0 where "pg' = install_body pg0"
    by (auto simp: install_script_def split: sum.splits registry_state.splits)
  with install_body_live [of pg0] show ?thesis
    by (auto simp: install_script_def)
qed

lemma page_inv_cleanup_script:
  assumes "cleanup_script pg = Inr pg'" and "page_inv pg"
  shows "page_inv pg'"
proof (cases "window_scrollRefreshCleanup pg")
  case False
  with assms show ?thesis by (simp add: cleanup_script_def)
next
  case True
  with assms(1) have c: "scrollRefreshCleanup pg = Inr pg'" by (simp add: cleanup_script_def)
  then obtain m where "registry pg = Live m"
    by (cases "registry pg") (simp_all add: scrollRefreshCleanup_def)
  from scrollRefreshCleanup_live [OF this] c
  have "registry pg' = Cleared" "\<not> window_scrollRefreshCleanup pg'" by auto
  then show ?thesis by (simp add: page_inv_def)
qed

subsection \<open>A fresh document after the install script\<close>




text \<open>The cleanup after that install leaves no listener, timer or node of the install.\<close>

lemma install_then_cleanup:
  "(case cleanup_script (install_body fresh_page) of
      Inl _ \<Rightarrow> False
    | Inr pg' \<Rightarrow>
        registry pg' = Cleared \<and> listeners pg' = [] \<and> live_intervals pg' = [] \<and>
        pending_timeouts pg' = [] \<and> document pg' = [] \<and>
        released pg' =
          [ClearedInterval 17, ClearedTimeout 14,
           RemovedListener Window ''scroll'' 1, RemovedListener Window ''wheel'' 2,
           RemovedListener Document ''mousemove'' 15, RemovedListener Window ''scroll'' 16,
           RemovedListener (Node 3) ''mouseenter'' 4, RemovedListener (Node 3) ''mouseleave'' 5,
           RemovedListener (Node 3) ''click'' 6, RemovedNode 3,
           RemovedListener (Node 7) ''mouseenter'' 8, RemovedListener (Node 7) ''mouseleave'' 9,
           RemovedListener (Node 7) ''click'' 10, RemovedListener (Node 7) ''mousedown'' 11,
           RemovedListener (Node 7) ''mouseup'' 12, RemovedNode 7, RemovedNode 13])"
  by code_simp

text \<open>
  The function itself, called on the manager it has cleared, throws at
  \<^verbatim>\<open>manager.intervals.idle\<close>; the function is reachable only through
  \<^verbatim>\<open>window.scrollRefreshCleanup\<close>, which the first call deletes.
\<close>

lemma scrollRefreshCleanup_after_cleanup:
  "registry pg = Cleared \<Longrightarrow> scrollRefreshCleanup pg = Inl TypeError"
  by (simp add: scrollRefreshCleanup_def)


subsection \<open>Teardown\<close>




subsection \<open>The wheel gesture\<close>


lemma wheel_non_number:
  "(\<forall>x. v \<noteq> JNumber (Finite x)) \<Longrightarrow> handleWheel (WheelEvent v) q = Inr q"
  by (cases v; simp add: handleWheel_def split: js_number.splits)









section \<open>Window lifecycle: theorems\<close>

subsection \<open>Interval handles\<close>

lemma timers_inv_emit [simp]: "timers_inv (emit e s) = timers_inv s"
  by (simp add: timers_inv_def emit_def live_handles_def)

lemma emit_fields [simp]:
  "mainWindow (emit e s) = mainWindow s"
  "host_intervals (emit e s) = host_intervals s"
  "host_timeouts (emit e s) = host_timeouts s"
  "next_timer (emit e s) = next_timer s"
  "trace (emit e s) = trace s @ [e]"
  by (simp_all add: emit_def)

lemma live_handles_other:
  assumes "distinct (map fst xs)" "(h, t) \<in> set xs" "t \<noteq> t'"
  shows "map fst (filter (\<lambda>e. snd e = t') (filter (\<lambda>e. fst e \<noteq> h) xs)) =
         map fst (filter (\<lambda>e. snd e = t') xs)"
proof -
  have "\<And>e. e \<in> set xs \<Longrightarrow> snd e = t' \<Longrightarrow> fst e \<noteq> h"
  proof
    fix e assume e: "e \<in> set xs" "snd e = t'" "fst e = h"
    with assms(1,2) have "e = (h, t)"
      by (metis eq_key_imp_eq_value prod.collapse)
    with e assms(3) show False by simp
  qed
  then have "filter (\<lambda>e. snd e = t') (filter (\<lambda>e. fst e \<noteq> h) xs) = filter (\<lambda>e. snd e = t') xs"
    by (auto intro!: filter_cong)
  then show ?thesis by simp
qed

lemma singleton_live_mem:
  assumes "map fst (filter (\<lambda>e. snd e = t) xs) = [h]"
  shows "(h, t) \<in> set xs"
proof -
  from assms have "h \<in> set (map fst (filter (\<lambda>e. snd e = t) xs))" by simp
  then show ?thesis by auto
qed

lemma singleton_live_cleared:
  assumes "distinct (map fst xs)" "map fst (filter (\<lambda>e. snd e = t) xs) = [h]"
  shows "map fst (filter (\<lambda>e. snd e = t) (filter (\<lambda>e. fst e \<noteq> h) xs)) = []"
proof -
  have "\<And>e. e \<in> set xs \<Longrightarrow> snd e = t \<Longrightarrow> fst e = h"
  proof -
    fix e assume "e \<in> set xs" "snd e = t"
    then have "fst e \<in> set (map fst (filter (\<lambda>e. snd e = t) xs))" by auto
    with assms(2) show "fst e = h" by simp
  qed
  then show ?thesis by (auto simp: filter_empty_conv)
qed

lemma host_clearInterval_fields [simp]:
  "mainWindow (host_clearInterval h s) = mainWindow s"
  "next_timer (host_clearInterval h s) = next_timer s"
  "host_timeouts (host_clearInterval h s) = host_timeouts s"
  "host_intervals (host_clearInterval h s) = filter (\<lambda>e. fst e \<noteq> h) (host_intervals s)"
  by (simp_all add: host_clearInterval_def)

lemma live_handles_update [simp]:
  "live_handles t (s\<lparr>mainWindow := x\<rparr>) = live_handles t s"
  "live_handles t (s\<lparr>host_timeouts := y\<rparr>) = live_handles t s"
  "live_handles t (s\<lparr>next_timer := z\<rparr>) = live_handles t s"
  "live_handles t (emit e s) = live_handles t s"
  by (simp_all add: live_handles_def)

lemma clearInterval_live:
  assumes d: "distinct (map fst (host_intervals s))" and l: "live_handles t s = [h]"
  shows "live_handles t (host_clearInterval h s) = []"
    and "t' \<noteq> t \<Longrightarrow> live_handles t' (host_clearInterval h s) = live_handles t' s"
    and "distinct (map fst (host_intervals (host_clearInterval h s)))"
proof -
  from l have l': "map fst (filter (\<lambda>e. snd e = t) (host_intervals s)) = [h]"
    by (simp add: live_handles_def)
  show "live_handles t (host_clearInterval h s) = []"
    unfolding live_handles_def host_clearInterval_fields
    by (rule singleton_live_cleared [OF d l'])
  show "live_handles t' (host_clearInterval h s) = live_handles t' s" if "t' \<noteq> t"
    unfolding live_handles_def host_clearInterval_fields
    using live_handles_other [OF d singleton_live_mem [OF l'], of t'] that by auto
  show "distinct (map fst (host_intervals (host_clearInterval h s)))"
    using d by (simp add: distinct_map_filter)
qed

lemma timers_inv_clear_cache:
  assumes "timers_inv s"
  shows "timers_inv (clear_cache_interval s)"
proof (cases "mainWindow s")
  case None
  with assms show ?thesis by (simp add: clear_cache_interval_def)
next
  case (Some w)
  show ?thesis
  proof (cases "cacheInterval w")
    case None
    with Some assms show ?thesis by (simp add: clear_cache_interval_def)
  next
    case (Some h)
    from assms \<open>mainWindow s = Some w\<close> Some
    have d: "distinct (map fst (host_intervals s))" and l: "live_handles CacheClear s = [h]"
      and m: "live_handles MemoryMonitor s = present [memoryMonitorInterval w]"
      and b: "\<forall>h \<in> fst ` set (host_intervals s). h < next_timer s"
      by (simp_all add: timers_inv_def present_def)
    note c = clearInterval_live [OF d l]
    have "clear_cache_interval s = (host_clearInterval h s)\<lparr>mainWindow := Some (w\<lparr>cacheInterval := None\<rparr>)\<rparr>"
      using \<open>mainWindow s = Some w\<close> Some by (simp add: clear_cache_interval_def)
    moreover have "timers_inv ((host_clearInterval h s)\<lparr>mainWindow := Some (w\<lparr>cacheInterval := None\<rparr>)\<rparr>)"
      unfolding timers_inv_def
      using c(1) c(2) [of MemoryMonitor] c(3) m b by (auto simp: present_def)
    ultimately show ?thesis by simp
  qed
qed

lemma timers_inv_clear_memory:
  assumes "timers_inv s"
  shows "timers_inv (clear_memory_interval s)"
proof (cases "mainWindow s")
  case None
  with assms show ?thesis by (simp add: clear_memory_interval_def)
next
  case (Some w)
  show ?thesis
  proof (cases "memoryMonitorInterval w")
    case None
    with Some assms show ?thesis by (simp add: clear_memory_interval_def)
  next
    case (Some h)
    from assms \<open>mainWindow s = Some w\<close> Some
    have d: "distinct (map fst (host_intervals s))" and l: "live_handles MemoryMonitor s = [h]"
      and m: "live_handles CacheClear s = present [cacheInterval w]"
      and b: "\<forall>h \<in> fst ` set (host_intervals s). h < next_timer s"
      by (simp_all add: timers_inv_def present_def)
    note c = clearInterval_live [OF d l]
    have "clear_memory_interval s = (host_clearInterval h s)\<lparr>mainWindow := Some (w\<lparr>memoryMonitorInterval := None\<rparr>)\<rparr>"
      using \<open>mainWindow s = Some w\<close> Some by (simp add: clear_memory_interval_def)
    moreover have "timers_inv ((host_clearInterval h s)\<lparr>mainWindow := Some (w\<lparr>memoryMonitorInterval := None\<rparr>)\<rparr>)"
      unfolding timers_inv_def
      using c(1) c(2) [of CacheClear] c(3) m b by (auto simp: present_def)
    ultimately show ?thesis by simp
  qed
qed

lemma clear_cache_window:
  "mainWindow (clear_cache_interval s) = map_option (\<lambda>w. w\<lparr>cacheInterval := None\<rparr>) (mainWindow s)"
  by (simp add: clear_cache_interval_def split: option.splits)

lemma clear_memory_window:
  "mainWindow (clear_memory_interval s) = map_option (\<lambda>w. w\<lparr>memoryMonitorInterval := None\<rparr>) (mainWindow s)"
  by (simp add: clear_memory_interval_def split: option.splits)

lemma timers_inv_arm_cache:
  assumes "timers_inv s" and "mainWindow s = Some w" and "cacheInterval w = None"
  shows "timers_inv (arm_cache_interval s)"
  using assms
  by (cases "mainWindow s")
     (auto simp: timers_inv_def arm_cache_interval_def host_setInterval_def live_handles_def
        present_def less_Suc_eq split: option.splits)

lemma timers_inv_arm_memory:
  assumes "timers_inv s" and "mainWindow s = Some w"
  shows "timers_inv (arm_memory_monitor s)"
  using assms
  by (cases "mainWindow s")
     (auto simp: timers_inv_def arm_memory_monitor_def host_setInterval_def live_handles_def
        present_def less_Suc_eq split: option.splits)

lemma timers_inv_setTimeout:
  "timers_inv s \<Longrightarrow> timers_inv (snd (host_setTimeout ms s))"
  by (auto simp: timers_inv_def host_setTimeout_def live_handles_def less_Suc_eq)

lemma timers_inv_window_flags:
  "timers_inv s \<Longrightarrow> mainWindow s = Some w \<Longrightarrow>
   timers_inv (s\<lparr>mainWindow := Some (w\<lparr>isLoading := a, loadingStartTime := b\<rparr>)\<rparr>)"
  by (simp add: timers_inv_def)

lemma timers_inv_request_install [simp]: "timers_inv (request_install reply s) = timers_inv s"
  by (cases reply) (simp_all add: request_install_def Let_def)

lemma request_install_fields [simp]:
  "mainWindow (request_install reply s) = mainWindow s"
  "host_intervals (request_install reply s) = host_intervals s"
  "host_timeouts (request_install reply s) = host_timeouts s"
  "next_timer (request_install reply s) = next_timer s"
  by (cases reply; simp add: request_install_def Let_def)+

lemma setTimeout_fields [simp]:
  "mainWindow (snd (host_setTimeout ms s)) = mainWindow s"
  "host_intervals (snd (host_setTimeout ms s)) = host_intervals s"
  "host_timeouts (snd (host_setTimeout ms s)) = host_timeouts s @ [(next_timer s, ms)]"
  "next_timer (snd (host_setTimeout ms s)) = Suc (next_timer s)"
  by (simp_all add: host_setTimeout_def)

lemma arm_cache_window:
  "mainWindow (arm_cache_interval s) =
     map_option (\<lambda>w. w\<lparr>cacheInterval := Some (next_timer s)\<rparr>) (mainWindow s)"
  by (simp add: arm_cache_interval_def host_setInterval_def)

lemma arm_memory_window:
  "mainWindow s = Some w \<Longrightarrow>
   mainWindow (arm_memory_monitor s) =
     Some (if memoryMonitorInterval w = None then w\<lparr>memoryMonitorInterval := Some (next_timer s)\<rparr> else w)"
  by (simp add: arm_memory_monitor_def host_setInterval_def)

lemma arm_fields [simp]:
  "host_timeouts (arm_cache_interval s) = host_timeouts s"
  "host_timeouts (arm_memory_monitor s) = host_timeouts s"
  "host_timeouts (clear_cache_interval s) = host_timeouts s"
  "host_timeouts (clear_memory_interval s) = host_timeouts s"
  "next_timer (clear_cache_interval s) = next_timer s"
  "next_timer (clear_memory_interval s) = next_timer s"
  by (simp_all add: arm_cache_interval_def arm_memory_monitor_def host_setInterval_def
      clear_cache_interval_def clear_memory_interval_def split: option.splits)

text \<open>The state in which an accepted load-finished signal leaves the window.\<close>

lemma did_finish_load_accepted:
  assumes "timers_inv s" and "mainWindow s = Some w" and "isLoading w \<noteq> Some True"
  shows "timers_inv (did_finish_load t0 t1 reply s)"
    and "\<exists>w'. mainWindow (did_finish_load t0 t1 reply s) = Some w' \<and> isLoading w' = Some True \<and>
            cacheInterval w' \<noteq> None \<and> memoryMonitorInterval w' \<noteq> None"
    and "host_timeouts (did_finish_load t0 t1 reply s) =
           host_timeouts s @ [(next_timer s, reset_delay t0 t1)]"
proof -
  let ?w1 = "w\<lparr>isLoading := Some True, loadingStartTime := Some t0\<rparr>"
  let ?s0 = "s\<lparr>mainWindow := Some ?w1\<rparr>"
  let ?s1 = "clear_cache_interval ?s0"
  let ?s3 = "snd (host_setTimeout (reset_delay t0 t1) (request_install reply ?s1))"
  let ?s4 = "arm_cache_interval ?s3"
  have eq: "did_finish_load t0 t1 reply s = arm_memory_monitor ?s4"
    using assms(2,3) by (simp add: did_finish_load_def Let_def)
  have i0: "timers_inv ?s0" using assms(1,2) by (rule timers_inv_window_flags)
  then have i1: "timers_inv ?s1" by (rule timers_inv_clear_cache)
  have w1: "mainWindow ?s1 = Some (?w1\<lparr>cacheInterval := None\<rparr>)"
    by (simp add: clear_cache_window)
  from i1 have i3: "timers_inv ?s3" by (simp add: timers_inv_setTimeout)
  have w3: "mainWindow ?s3 = Some (?w1\<lparr>cacheInterval := None\<rparr>)" using w1 by simp
  have i4: "timers_inv ?s4" by (rule timers_inv_arm_cache [OF i3 w3]) simp
  have w4: "mainWindow ?s4 = Some (?w1\<lparr>cacheInterval := Some (next_timer ?s3)\<rparr>)"
    using w3 by (simp add: arm_cache_window)
  show "timers_inv (did_finish_load t0 t1 reply s)"
    unfolding eq by (rule timers_inv_arm_memory [OF i4 w4])
  show "\<exists>w'. mainWindow (did_finish_load t0 t1 reply s) = Some w' \<and> isLoading w' = Some True \<and>
            cacheInterval w' \<noteq> None \<and> memoryMonitorInterval w' \<noteq> None"
    unfolding eq by (simp add: arm_memory_window [OF w4])
  show "host_timeouts (did_finish_load t0 t1 reply s) =
           host_timeouts s @ [(next_timer s, reset_delay t0 t1)]"
    unfolding eq by simp
qed

lemma did_finish_load_dropped:
  "mainWindow s = Some w \<Longrightarrow> isLoading w = Some True \<Longrightarrow>
   did_finish_load t0 t1 reply s =
     emit (ConsoleWarn ''Page loading in progress, skipping duplicate injection'' []) s"
  by (simp add: did_finish_load_def)

lemma timers_inv_did_finish_load:
  assumes "timers_inv s"
  shows "timers_inv (did_finish_load t0 t1 reply s)"
proof (cases "mainWindow s")
  case None
  with assms show ?thesis by (simp add: did_finish_load_def)
next
  case (Some w)
  show ?thesis
  proof (cases "isLoading w = Some True")
    case True
    with Some assms show ?thesis by (simp add: did_finish_load_dropped)
  next
    case False
    with assms Some show ?thesis by (rule did_finish_load_accepted(1))
  qed
qed

lemma timers_inv_reset_timer: "timers_inv s \<Longrightarrow> timers_inv (reset_timer_fires h s)"
  by (cases "mainWindow s") (auto simp: reset_timer_fires_def timers_inv_def live_handles_def)

lemma timers_inv_await:
  "timers_inv s \<Longrightarrow> await_cleanup msg msg' reply s = Some s' \<Longrightarrow> timers_inv s'"
  by (cases reply) (auto simp: await_cleanup_def Let_def)

lemma timers_inv_on_close: "timers_inv s \<Longrightarrow> timers_inv (on_close reply reply2 s)"
  by (cases reply; cases reply2)
     (auto simp: on_close_def Let_def await_cleanup_def timers_inv_def live_handles_def emit_def
        split: option.splits)

lemma timers_inv_no_window:
  "timers_inv s \<Longrightarrow> Option.bind (mainWindow s) cacheInterval = None \<Longrightarrow>
   Option.bind (mainWindow s) memoryMonitorInterval = None \<Longrightarrow> timers_inv (s\<lparr>mainWindow := None\<rparr>)"
  by (cases "mainWindow s") (auto simp: timers_inv_def present_def)

lemma cleared_both:
  "Option.bind (mainWindow (clear_memory_interval (clear_cache_interval s))) cacheInterval = None"
  "Option.bind (mainWindow (clear_memory_interval (clear_cache_interval s))) memoryMonitorInterval = None"
  by (cases "mainWindow s"; simp add: clear_cache_window clear_memory_window)+

lemma timers_inv_on_closed: "timers_inv s \<Longrightarrow> timers_inv (on_closed s)"
  unfolding on_closed_def
  by (intro timers_inv_no_window timers_inv_clear_memory timers_inv_clear_cache cleared_both)

lemma timers_inv_on_destroyed: "timers_inv s \<Longrightarrow> timers_inv (on_destroyed s)"
  unfolding on_destroyed_def
  by (auto intro: timers_inv_no_window timers_inv_clear_memory timers_inv_clear_cache cleared_both)

lemma timers_inv_render_process_gone:
  "timers_inv s \<Longrightarrow> timers_inv (render_process_gone reason reply s)"
  by (cases reply)
     (auto simp: render_process_gone_def Let_def await_cleanup_def
        intro!: timers_inv_clear_memory timers_inv_clear_cache)

lemma timers_inv_render_process_gone_resumes:
  "timers_inv s \<Longrightarrow> timers_inv (render_process_gone_resumes s)"
  by (auto simp: render_process_gone_resumes_def intro!: timers_inv_clear_memory timers_inv_clear_cache)

lemma timers_inv_on_unresponsive: "timers_inv s \<Longrightarrow> timers_inv (on_unresponsive s)"
  by (auto simp: on_unresponsive_def intro!: timers_inv_clear_memory timers_inv_clear_cache)

lemma timers_inv_on_responsive: "timers_inv s \<Longrightarrow> timers_inv (on_responsive s)"
  by (cases "mainWindow s")
     (auto simp: on_responsive_def Let_def intro: timers_inv_arm_cache)

lemma timers_inv_toggle: "timers_inv s \<Longrightarrow> timers_inv (toggle_always_on_top s)"
  by (cases "mainWindow s") (auto simp: toggle_always_on_top_def Let_def timers_inv_def)

lemma timers_inv_dispatch: "timers_inv s \<Longrightarrow> timers_inv (dispatch s e)"
  by (cases e)
     (simp_all add: timers_inv_did_finish_load timers_inv_reset_timer timers_inv_on_close
        timers_inv_on_closed timers_inv_on_destroyed timers_inv_render_process_gone
        timers_inv_render_process_gone_resumes
        timers_inv_on_unresponsive timers_inv_on_responsive timers_inv_toggle)

lemma timers_inv_run: "timers_inv s \<Longrightarrow> timers_inv (run s es)"
  unfolding run_def by (induction es arbitrary: s) (simp_all add: timers_inv_dispatch)

lemma timers_inv_started: "timers_inv (started b)"
  by (simp add: timers_inv_def started_def live_handles_def new_window_def present_def)

lemma timers_inv_at_most_one:
  "timers_inv s \<Longrightarrow> length (live_handles CacheClear s) \<le> 1 \<and> length (live_handles MemoryMonitor s) \<le> 1"
  by (auto simp: timers_inv_def present_def split: option.splits)


subsection \<open>The re-entrancy guard\<close>

lemma installs_emit [simp]:
  "installs (emit e s) = (if e = ExecuteJavaScript InstallScript then Suc (installs s) else installs s)"
  by (simp add: installs_def emit_def)

lemma installs_update [simp]:
  "installs (s\<lparr>mainWindow := x\<rparr>) = installs s"
  "installs (s\<lparr>host_intervals := y\<rparr>) = installs s"
  "installs (s\<lparr>host_timeouts := z\<rparr>) = installs s"
  "installs (s\<lparr>next_timer := n\<rparr>) = installs s"
  by (simp_all add: installs_def)

lemma installs_helpers [simp]:
  "installs (clear_cache_interval s) = installs s"
  "installs (clear_memory_interval s) = installs s"
  "installs (arm_cache_interval s) = installs s"
  "installs (arm_memory_monitor s) = installs s"
  "installs (snd (host_setTimeout ms s)) = installs s"
  "installs (request_install reply s) = Suc (installs s)"
  by (cases reply;
      simp add: clear_cache_interval_def clear_memory_interval_def arm_cache_interval_def
        arm_memory_monitor_def host_setInterval_def host_setTimeout_def host_clearInterval_def
        request_install_def Let_def split: option.splits)+







lemma installs_await:
  "await_cleanup m m' reply s = Some s' \<Longrightarrow> installs s' = installs s"
  by (cases reply) (auto simp: await_cleanup_def Let_def)













subsection \<open>Load-to-ready cycles\<close>

lemma cycle_step:
  assumes "timers_inv s" and "mainWindow s = Some w" and "isLoading w \<noteq> Some True"
  shows "timers_inv (load_ready_cycle p s) \<and>
         (\<exists>w'. mainWindow (load_ready_cycle p s) = Some w' \<and> isLoading w' = Some False \<and>
                cacheInterval w' \<noteq> None \<and> memoryMonitorInterval w' \<noteq> None)"
proof -
  obtain t0 t1 reply where p: "p = (t0, t1, reply)" by (cases p)
  let ?s1 = "did_finish_load t0 t1 reply s"
  note a = did_finish_load_accepted [OF assms, of t0 t1 reply]
  from a(2) obtain w' where w': "mainWindow ?s1 = Some w'" "cacheInterval w' \<noteq> None"
      "memoryMonitorInterval w' \<noteq> None" by blast
  have "timers_inv (reset_timer_fires (next_timer s) ?s1)"
    using a(1) by (rule timers_inv_reset_timer)
  moreover have "mainWindow (reset_timer_fires (next_timer s) ?s1) =
      Some (w'\<lparr>isLoading := Some False, loadingStartTime := None\<rparr>)"
    using w'(1) a(3) by (simp add: reset_timer_fires_def)
  ultimately show ?thesis using w'(2,3) by (simp add: load_ready_cycle_def p)
qed

lemma cycles_ready:
  assumes "timers_inv s" and "mainWindow s = Some w" and "isLoading w \<noteq> Some True" and "ps \<noteq> []"
  shows "timers_inv (foldl (\<lambda>q p. load_ready_cycle p q) s ps) \<and>
         (\<exists>w'. mainWindow (foldl (\<lambda>q p. load_ready_cycle p q) s ps) = Some w' \<and>
                isLoading w' = Some False \<and>
                cacheInterval w' \<noteq> None \<and> memoryMonitorInterval w' \<noteq> None)"
  using assms(4,1,2,3)
proof (induction ps arbitrary: s w rule: rev_nonempty_induct)
  case (single p)
  then show ?case using cycle_step [of s w p] by simp
next
  case (snoc p ps)
  from snoc.IH [OF snoc.prems] obtain w' where
    "timers_inv (foldl (\<lambda>q p. load_ready_cycle p q) s ps)"
    "mainWindow (foldl (\<lambda>q p. load_ready_cycle p q) s ps) = Some w'" "isLoading w' = Some False"
    by blast
  then show ?case using cycle_step [of "foldl (\<lambda>q p. load_ready_cycle p q) s ps" w' p] by simp
qed


text \<open>
  C2. From a state that satisfies the invariant of the interval handles, after every
  sequence of load-finished, reset-timer, close (hide), closed, destroyed,
  render-process-gone (with its later continuation), unresponsive, responsive and toggle
  events, at most one cache-clear
  interval and at most one memory-monitor interval are live, and they are the ones the
  window holds. After any non-empty sequence of load-to-ready cycles that starts when no
  load is in progress, exactly one interval of each task is live.
\<close>

theorem timer_handles_invariant:
  assumes "timers_inv s"
  shows "length (live_handles CacheClear (run s es)) \<le> 1 \<and>
         length (live_handles MemoryMonitor (run s es)) \<le> 1 \<and>
         live_handles CacheClear (run s es) =
           (case mainWindow (run s es) of None \<Rightarrow> [] | Some w \<Rightarrow> present [cacheInterval w]) \<and>
         live_handles MemoryMonitor (run s es) =
           (case mainWindow (run s es) of None \<Rightarrow> [] | Some w \<Rightarrow> present [memoryMonitorInterval w]) \<and>
         (\<forall>w. mainWindow (run s es) = Some w \<and> isLoading w \<noteq> Some True \<and> ps \<noteq> [] \<longrightarrow>
            length (live_handles CacheClear (foldl (\<lambda>q p. load_ready_cycle p q) (run s es) ps)) = 1 \<and>
            length (live_handles MemoryMonitor (foldl (\<lambda>q p. load_ready_cycle p q) (run s es) ps)) = 1)"
proof -
  have i: "timers_inv (run s es)" using assms by (rule timers_inv_run)
  have c: "length (live_handles CacheClear (foldl (\<lambda>q p. load_ready_cycle p q) (run s es) ps)) = 1 \<and>
           length (live_handles MemoryMonitor (foldl (\<lambda>q p. load_ready_cycle p q) (run s es) ps)) = 1"
    if "mainWindow (run s es) = Some w" "isLoading w \<noteq> Some True" "ps \<noteq> []" for w
  proof -
    from cycles_ready [OF i that] show ?thesis
      by (auto simp: timers_inv_def present_def)
  qed
  from i timers_inv_at_most_one [OF i] c show ?thesis
    by (simp add: timers_inv_def)
qed

theorem timer_handles_invariant_witness:
  "timers_inv (started False) \<and>
   mainWindow (run (started False) []) = Some new_window \<and> isLoading new_window \<noteq> Some True \<and>
   length (live_handles CacheClear
     (foldl (\<lambda>q p. load_ready_cycle p q) (run (started False) [])
        [(1000, 1040, Resolves), (5000, 5002, Rejects JNull), (9000, 9001, NeverSettles)])) = 1 \<and>
   length (live_handles MemoryMonitor
     (foldl (\<lambda>q p. load_ready_cycle p q) (run (started False) [])
        [(1000, 1040, Resolves), (5000, 5002, Rejects JNull), (9000, 9001, NeverSettles)])) = 1"
proof -
  have a: "timers_inv (started False)" by (rule timers_inv_started)
  have b: "mainWindow (run (started False) []) = Some new_window"
    by (simp add: run_def started_def)
  have c: "isLoading new_window \<noteq> Some True" by (simp add: new_window_def)
  from timer_handles_invariant [OF a, of "[]"
      "[(1000, 1040, Resolves), (5000, 5002, Rejects JNull), (9000, 9001, NeverSettles)]"] a b c
  show ?thesis by simp
qed

section \<open>Process-wide faults: theorems\<close>

subsection \<open>The two listeners\<close>

lemma offs_fields:
  "trace (foldl (\<lambda>q ev. app_off ev q) s evs) = trace s @ map AppOff evs"
  "mainWindow (foldl (\<lambda>q ev. app_off ev q) s evs) = mainWindow s"
  "exit_status (foldl (\<lambda>q ev. app_off ev q) s evs) = exit_status s"
  "tray (foldl (\<lambda>q ev. app_off ev q) s evs) = tray s"
  by (induction evs arbitrary: s) (simp_all add: app_off_def emit_def)

lemma emit_more_fields [simp]:
  "exit_status (emit e s) = exit_status s"
  "tray (emit e s) = tray s"
  "appEventListeners (emit e s) = appEventListeners s"
  "subscribed (emit e s) = subscribed s"
  "window_usable (emit e s) = window_usable s"
  by (simp_all add: emit_def window_usable_def)

text \<open>\<^verbatim>\<open>cleanupApp\<close> unsubscribes what \<^verbatim>\<open>addAppListener\<close> has subscribed.\<close>

lemma cleanupApp_unsubscribes:
  "subscribed (snd (cleanupApp None (started b))) = []"
  "appEventListeners (snd (cleanupApp None (started b))) = []"
  "tray (snd (cleanupApp None (started b))) = False"
  by (simp_all add: cleanupApp_def started_def app_off_def Let_def emit_def)

lemma cleanupApp_trace:
  "\<exists>new. trace (snd (cleanupApp tray_error s)) = trace s @ new \<and>
         (\<forall>e \<in> set new. \<not> discloses e \<and> \<not> exits e) \<and>
         (\<forall>ms. RaceTimedOut ms \<notin> set new) \<and>
         exit_status (snd (cleanupApp tray_error s)) = exit_status s"
proof (cases "tray s \<and> tray_error = None")
  case True
  then show ?thesis
    by (intro exI [of _ "map AppOff (appEventListeners s) @ [TrayDestroy]"])
       (auto simp: cleanupApp_def Let_def offs_fields discloses_def exits_def)
next
  case False
  then show ?thesis
    by (intro exI [of _ "map AppOff (appEventListeners s)"])
       (auto simp: cleanupApp_def Let_def offs_fields discloses_def exits_def split: option.splits)
qed

lemma cleanupApp_thrown:
  "fst (cleanupApp tray_error s) = (if tray s then tray_error else None)"
  by (auto simp: cleanupApp_def Let_def offs_fields split: option.splits)

text \<open>
  \<^verbatim>\<open>performGracefulCleanup\<close> always returns, never ends the process, and logs as they are
  the error of the cleanup request and the error of \<^verbatim>\<open>cleanupApp\<close>.
\<close>

lemma performGracefulCleanup_trace:
  "\<exists>new. trace (performGracefulCleanup reply tray_error s) = trace s @ new \<and>
         (\<forall>e \<in> set new. \<not> exits e) \<and>
         (window_usable s \<longrightarrow> ExecuteJavaScript CleanupScript \<in> set new) \<and>
         (window_usable s \<and> reply = NeverSettles \<longrightarrow> RaceTimedOut 3000 \<in> set new) \<and>
         (\<forall>v. window_usable s \<and> reply = Rejects v \<longrightarrow>
              ConsoleWarn ''JavaScript cleanup failed:'' [Raw v] \<in> set new) \<and>
         (\<forall>v. tray s \<and> tray_error = Some v \<longrightarrow>
              ConsoleError ''App cleanup failed:'' [Raw v] \<in> set new) \<and>
         exit_status (performGracefulCleanup reply tray_error s) = exit_status s"
proof -
  define s1 where "s1 = (if window_usable s then
                  (let q = emit (ExecuteJavaScript CleanupScript) s in
                   case reply of
                     ThrowsSynchronously error \<Rightarrow>
                       emit (ConsoleWarn ''Failed to execute JavaScript cleanup:'' [Raw error]) q
                   | Rejects error \<Rightarrow> emit (ConsoleWarn ''JavaScript cleanup failed:'' [Raw error]) q
                   | Resolves \<Rightarrow> q
                   | NeverSettles \<Rightarrow> emit (RaceTimedOut 3000) q)
                else s)"
  have a: "\<exists>n1. trace s1 = trace s @ n1 \<and> (\<forall>e \<in> set n1. \<not> exits e) \<and>
         (window_usable s \<longrightarrow> ExecuteJavaScript CleanupScript \<in> set n1) \<and>
         (window_usable s \<and> reply = NeverSettles \<longrightarrow> RaceTimedOut 3000 \<in> set n1) \<and>
         (\<forall>v. window_usable s \<and> reply = Rejects v \<longrightarrow>
              ConsoleWarn ''JavaScript cleanup failed:'' [Raw v] \<in> set n1) \<and>
         exit_status s1 = exit_status s \<and> tray s1 = tray s"
    unfolding s1_def by (cases reply) (auto simp: Let_def exits_def)
  then obtain n1 where n1: "trace s1 = trace s @ n1" "\<forall>e \<in> set n1. \<not> exits e"
      "window_usable s \<longrightarrow> ExecuteJavaScript CleanupScript \<in> set n1"
      "window_usable s \<and> reply = NeverSettles \<longrightarrow> RaceTimedOut 3000 \<in> set n1"
      "\<forall>v. window_usable s \<and> reply = Rejects v \<longrightarrow>
           ConsoleWarn ''JavaScript cleanup failed:'' [Raw v] \<in> set n1"
      "exit_status s1 = exit_status s" "tray s1 = tray s"
    by blast
  obtain n2 where n2: "trace (snd (cleanupApp tray_error s1)) = trace s1 @ n2"
      "\<forall>e \<in> set n2. \<not> discloses e \<and> \<not> exits e"
      "exit_status (snd (cleanupApp tray_error s1)) = exit_status s1"
    using cleanupApp_trace [of tray_error s1] by blast
  have c: "performGracefulCleanup reply tray_error s =
      (case fst (cleanupApp tray_error s1) of
         None \<Rightarrow> snd (cleanupApp tray_error s1)
       | Some cleanupError \<Rightarrow>
           emit (ConsoleError ''App cleanup failed:'' [Raw cleanupError]) (snd (cleanupApp tray_error s1)))"
    by (simp only: performGracefulCleanup_def s1_def Let_def split_def)
  show ?thesis
  proof (cases "fst (cleanupApp tray_error s1)")
    case None
    with cleanupApp_thrown [of tray_error s1] n1(7)
    have t: "\<not> (tray s \<and> tray_error \<noteq> None)" by (auto split: if_splits)
    from None c n1 n2 t show ?thesis
      by (intro exI [of _ "n1 @ n2"]) auto
  next
    case (Some v)
    with cleanupApp_thrown [of tray_error s1] n1(7)
    have t: "tray_error = Some v" by (auto split: if_splits)
    from Some c n1 n2 t show ?thesis
      by (intro exI [of _ "n1 @ n2 @ [ConsoleError ''App cleanup failed:'' [Raw v]]"])
         (auto simp: exits_def)
  qed
qed

text \<open>
  The listener for \<^verbatim>\<open>uncaughtException\<close>, when it is called: it logs the sanitized fault
  first, sends the cleanup request when the window is usable, goes on after 3000 ms when
  the page never answers, and ends with \<^verbatim>\<open>process.exit(1)\<close>, whether or not \<^verbatim>\<open>cleanupApp\<close>
  threw. The errors met during the cleanup are logged as they are.
\<close>

lemma uncaughtException_listener:
  "(\<exists>new. trace (uncaughtException error reply tray_error s) =
            trace s @ ConsoleError ''Uncaught Exception:'' [Fault (sanitizeError error)] # new @ [ProcessExit 1] \<and>
          (\<forall>e \<in> set new. \<not> exits e) \<and>
          (window_usable s \<longrightarrow> ExecuteJavaScript CleanupScript \<in> set new) \<and>
          (window_usable s \<and> reply = NeverSettles \<longrightarrow> RaceTimedOut 3000 \<in> set new) \<and>
          (\<forall>v. tray s \<and> tray_error = Some v \<longrightarrow>
               ConsoleError ''App cleanup failed:'' [Raw v] \<in> set new)) \<and>
   exit_status (uncaughtException error reply tray_error s) = Some 1"
proof -
  let ?s1 = "emit (ConsoleError ''Uncaught Exception:'' [Fault (sanitizeError error)]) s"
  obtain n where n: "trace (performGracefulCleanup reply tray_error ?s1) = trace ?s1 @ n"
      "\<forall>e \<in> set n. \<not> exits e"
      "window_usable ?s1 \<longrightarrow> ExecuteJavaScript CleanupScript \<in> set n"
      "window_usable ?s1 \<and> reply = NeverSettles \<longrightarrow> RaceTimedOut 3000 \<in> set n"
      "\<forall>v. tray ?s1 \<and> tray_error = Some v \<longrightarrow> ConsoleError ''App cleanup failed:'' [Raw v] \<in> set n"
    using performGracefulCleanup_trace [of reply tray_error ?s1] by blast
  have a: "\<exists>new. trace (uncaughtException error reply tray_error s) =
            trace s @ ConsoleError ''Uncaught Exception:'' [Fault (sanitizeError error)] # new @ [ProcessExit 1] \<and>
          (\<forall>e \<in> set new. \<not> exits e) \<and>
          (window_usable s \<longrightarrow> ExecuteJavaScript CleanupScript \<in> set new) \<and>
          (window_usable s \<and> reply = NeverSettles \<longrightarrow> RaceTimedOut 3000 \<in> set new) \<and>
          (\<forall>v. tray s \<and> tray_error = Some v \<longrightarrow>
               ConsoleError ''App cleanup failed:'' [Raw v] \<in> set new)"
    using n
    by (intro exI [of _ "n @ [ConsoleLog ''Graceful cleanup completed'']"])
       (auto simp: uncaughtException_def Let_def process_exit_def exits_def)
  have b: "exit_status (uncaughtException error reply tray_error s) = Some 1"
    by (simp add: uncaughtException_def Let_def process_exit_def)
  from a b show ?thesis by blast
qed

text \<open>
  The listener for \<^verbatim>\<open>unhandledRejection\<close>, when it is called: it gives the console the
  rejected promise, which holds the reason as it is, beside the sanitized reason; it sends
  the cleanup request when the window is usable, waits for nothing, and leaves the exit
  status as it was: \<^verbatim>\<open>process.exit\<close> is not called.
\<close>

lemma unhandledRejection_listener:
  "(\<exists>new. trace (unhandledRejection reason reply s) =
            trace s @ ConsoleError ''Unhandled Rejection at:''
                        [RejectedPromise reason, Text ''reason:'', Fault (sanitizeError reason)] # new \<and>
          (\<forall>e \<in> set new. \<not> exits e) \<and>
          (\<forall>ms. RaceTimedOut ms \<notin> set new) \<and>
          (window_usable s \<longrightarrow> ExecuteJavaScript CleanupScript \<in> set new)) \<and>
   discloses (ConsoleError ''Unhandled Rejection at:''
                [RejectedPromise reason, Text ''reason:'', Fault (sanitizeError reason)]) \<and>
   exit_status (unhandledRejection reason reply s) = exit_status s"
proof -
  have c: "\<exists>new. trace (unhandledRejection reason reply s) =
            trace s @ ConsoleError ''Unhandled Rejection at:''
                        [RejectedPromise reason, Text ''reason:'', Fault (sanitizeError reason)] # new \<and>
          (\<forall>e \<in> set new. \<not> exits e) \<and>
          (\<forall>ms. RaceTimedOut ms \<notin> set new) \<and>
          (window_usable s \<longrightarrow> ExecuteJavaScript CleanupScript \<in> set new)"
    by (cases reply)
       (auto simp: unhandledRejection_def Let_def exits_def)
  have d: "exit_status (unhandledRejection reason reply s) = exit_status s"
    by (cases reply) (auto simp: unhandledRejection_def Let_def)
  from c d show ?thesis by (simp add: discloses_def)
qed

text \<open>Both listeners, called in the state after startup with \<^verbatim>\<open>new Error('boom')\<close>.\<close>

lemma uncaughtException_at_startup:
  "exit_status (uncaughtException (JError \<lparr>err_name = utf16 ''Error'', err_message = utf16 ''boom'',
      err_stack = None\<rparr>) NeverSettles (Some (JString (utf16 ''tray is gone''))) (started False)) = Some 1 \<and>
   trace (uncaughtException (JError \<lparr>err_name = utf16 ''Error'', err_message = utf16 ''boom'',
      err_stack = None\<rparr>) NeverSettles (Some (JString (utf16 ''tray is gone''))) (started False)) =
     [ConsoleError ''Uncaught Exception:''
        [Fault (FaultRecord (utf16 ''Error'') (utf16 ''Application error occurred'') None)],
      ExecuteJavaScript CleanupScript, RaceTimedOut 3000,
      AppOff ''window-all-closed'', AppOff ''activate'', AppOff ''before-quit'',
      AppOff ''uncaughtException'', AppOff ''unhandledRejection'',
      ConsoleError ''App cleanup failed:'' [Raw (JString (utf16 ''tray is gone''))],
      ConsoleLog ''Graceful cleanup completed'', ProcessExit 1]"
  by code_simp

lemma unhandledRejection_at_startup:
  "exit_status (unhandledRejection (JError \<lparr>err_name = utf16 ''Error'', err_message = utf16 ''boom'',
      err_stack = None\<rparr>) Resolves (started False)) = None \<and>
   trace (unhandledRejection (JError \<lparr>err_name = utf16 ''Error'', err_message = utf16 ''boom'',
      err_stack = None\<rparr>) Resolves (started False)) =
     [ConsoleError ''Unhandled Rejection at:''
        [RejectedPromise (JError \<lparr>err_name = utf16 ''Error'', err_message = utf16 ''boom'',
           err_stack = None\<rparr>),
         Text ''reason:'',
         Fault (FaultRecord (utf16 ''Error'') (utf16 ''Application error occurred'') None)],
      ExecuteJavaScript CleanupScript]"
  by code_simp

subsection \<open>A fault at the process level\<close>

text \<open>The state after startup is what the five calls of \<^verbatim>\<open>addAppListener\<close> leave: every
  subscription of the program is one to \<^verbatim>\<open>app\<close>.\<close>

lemma started_subscriptions:
  "started b =
     foldl (\<lambda>q ev. addAppListener ev q)
       ((started b)\<lparr>appEventListeners := [], subscribed := []\<rparr>)
       [''window-all-closed'', ''activate'', ''before-quit'', ''uncaughtException'',
        ''unhandledRejection'']"
  by (simp add: started_def addAppListener_def)

lemma addAppListener_app_only:
  "subscribed (addAppListener ev s) = subscribed s @ [(App, ev)]"
  by (simp add: addAppListener_def)

text \<open>No event of the window changes the subscriptions.\<close>

lemma subscribed_helpers:
  "subscribed (clear_cache_interval s) = subscribed s"
  "subscribed (clear_memory_interval s) = subscribed s"
  "subscribed (arm_cache_interval s) = subscribed s"
  "subscribed (arm_memory_monitor s) = subscribed s"
  "subscribed (snd (host_setTimeout ms s)) = subscribed s"
  "subscribed (request_install reply s) = subscribed s"
  by (cases reply; auto simp: clear_cache_interval_def clear_memory_interval_def arm_cache_interval_def
      arm_memory_monitor_def host_setTimeout_def host_setInterval_def host_clearInterval_def
      request_install_def Let_def split_def split: option.splits)+

lemma subscribed_dispatch: "subscribed (dispatch s e) = subscribed s"
proof (cases e)
  case (DidFinishLoad t0 t1 reply)
  then show ?thesis
    by (auto simp: did_finish_load_def Let_def subscribed_helpers split: option.splits)
next
  case (ResetTimerFires h)
  then show ?thesis by (simp add: reset_timer_fires_def)
next
  case (Close reply reply2)
  then show ?thesis
    by (cases reply; cases reply2)
       (auto simp: on_close_def Let_def await_cleanup_def split: option.splits)
next
  case Closed
  then show ?thesis by (simp add: on_closed_def subscribed_helpers)
next
  case Destroyed
  then show ?thesis by (simp add: on_destroyed_def subscribed_helpers)
next
  case (RenderProcessGone reason reply)
  then show ?thesis
    by (cases reply)
       (auto simp: render_process_gone_def Let_def await_cleanup_def subscribed_helpers)
next
  case RenderProcessGoneResumes
  then show ?thesis by (simp add: render_process_gone_resumes_def subscribed_helpers)
next
  case Unresponsive
  then show ?thesis by (simp add: on_unresponsive_def subscribed_helpers)
next
  case Responsive
  then show ?thesis
    by (auto simp: on_responsive_def Let_def subscribed_helpers split: option.splits)
next
  case ToggleAlwaysOnTop
  then show ?thesis by (auto simp: toggle_always_on_top_def Let_def split: option.splits)
qed

lemma subscribed_run: "subscribed (run s es) = subscribed s"
  unfolding run_def by (induction es arbitrary: s) (simp_all add: subscribed_dispatch)

text \<open>
  C6. The claim asks that every fault at the process level is logged sanitized, that a
  bounded cleanup is attempted and that the process ends with a non-zero status. The two
  fault listeners are subscribed to \<^verbatim>\<open>app\<close>, and nothing is subscribed to \<^verbatim>\<open>process\<close>, after
  startup and after any events of the window. A fault at the process level, an uncaught
  exception or an unhandled rejection, therefore runs no code of the program: the state is
  as it was, so nothing is logged, sanitized or not, no cleanup is requested, and
  \<^verbatim>\<open>process.exit\<close> is not called. For a fault right after startup the log is empty and there
  is no exit status.
\<close>

theorem process_fault_reaches_no_listener:
  "(App, ''uncaughtException'') \<in> set (subscribed (run (started on_win32) es)) \<and>
   (App, ''unhandledRejection'') \<in> set (subscribed (run (started on_win32) es)) \<and>
   (Process, ''uncaughtException'') \<notin> set (subscribed (run (started on_win32) es)) \<and>
   (Process, ''unhandledRejection'') \<notin> set (subscribed (run (started on_win32) es)) \<and>
   process_fault f reply tray_error (run (started on_win32) es) = run (started on_win32) es \<and>
   process_fault f reply tray_error (started on_win32) = started on_win32 \<and>
   trace (process_fault f reply tray_error (started on_win32)) = [] \<and>
   exit_status (process_fault f reply tray_error (started on_win32)) = None"
proof -
  have a: "subscribed (run (started on_win32) es) =
             [(App, ''window-all-closed''), (App, ''activate''), (App, ''before-quit''),
              (App, ''uncaughtException''), (App, ''unhandledRejection'')]"
    by (simp add: subscribed_run started_def)
  have t: "trace (started on_win32) = []" "exit_status (started on_win32) = None"
    by (simp_all add: started_def)
  have b: "process_fault f reply tray_error (run (started on_win32) es) = run (started on_win32) es"
    by (cases f) (simp_all add: process_fault_def a)
  have c: "process_fault f reply tray_error (started on_win32) = started on_win32"
    by (cases f) (simp_all add: process_fault_def started_def)
  show ?thesis unfolding b c by (simp add: a t)
qed

section \<open>Always-on-top: theorem\<close>

text \<open>
  C10. When the main window exists and is not destroyed, a \<^verbatim>\<open>toggle-always-on-top\<close> request
  negates the always-on-top state of the window and sends one \<^verbatim>\<open>always-on-top-changed\<close>
  message, whose payload is the new state; nothing else changes. When the window is absent
  or destroyed the request changes nothing and sends nothing.
\<close>

theorem toggle_always_on_top_round_trip:
  "(\<forall>w. mainWindow s = Some w \<and> \<not> isDestroyed w \<longrightarrow>
      toggle_always_on_top s =
        s\<lparr>mainWindow := Some (w\<lparr>alwaysOnTop := \<not> alwaysOnTop w\<rparr>),
          trace := trace s @ [SetAlwaysOnTop (\<not> alwaysOnTop w),
                              Send ''always-on-top-changed'' (\<not> alwaysOnTop w)]\<rparr> \<and>
      alwaysOnTop (the (mainWindow (toggle_always_on_top s))) = (\<not> alwaysOnTop w) \<and>
      length (filter (\<lambda>e. \<exists>b. e = Send ''always-on-top-changed'' b) (trace (toggle_always_on_top s))) =
        Suc (length (filter (\<lambda>e. \<exists>b. e = Send ''always-on-top-changed'' b) (trace s)))) \<and>
   ((mainWindow s = None \<or> (\<exists>w. mainWindow s = Some w \<and> isDestroyed w)) \<longrightarrow>
      toggle_always_on_top s = s)"
  by (auto simp: toggle_always_on_top_def emit_def Let_def)

theorem toggle_always_on_top_round_trip_witness:
  "mainWindow (started False) = Some new_window \<and> \<not> isDestroyed new_window \<and>
   mainWindow (toggle_always_on_top (started False)) = Some (new_window\<lparr>alwaysOnTop := True\<rparr>) \<and>
   trace (toggle_always_on_top (started False)) =
     [SetAlwaysOnTop True, Send ''always-on-top-changed'' True] \<and>
   toggle_always_on_top ((started False)\<lparr>mainWindow := None\<rparr>) = (started False)\<lparr>mainWindow := None\<rparr>"
proof -
  have a: "mainWindow (started False) = Some new_window" "\<not> isDestroyed new_window"
       "alwaysOnTop new_window = False" "trace (started False) = []"
    by (simp_all add: started_def new_window_def)
  have b: "mainWindow ((started False)\<lparr>mainWindow := None\<rparr>) = None" by simp
  from toggle_always_on_top_round_trip [of "started False"] a
       toggle_always_on_top_round_trip [of "(started False)\<lparr>mainWindow := None\<rparr>"] b
  show ?thesis by simp
qed

end
